theory Spec2Isabelle
  imports Main
begin

section \<open>Python values used by the handlers\<close>

text \<open>
  A Python \<open>str\<close> is a sequence of Unicode code points and \<open>bytes\<close> a sequence of
  octets; both are lists of naturals here. \<open>lit\<close> turns an ASCII literal of the source
  into its code points.
\<close>

type_synonym str = "nat list"
type_synonym bytes = "nat list"

definition lit :: "string \<Rightarrow> str" where
  "lit s = map of_char s"

definition startswith :: "str \<Rightarrow> str \<Rightarrow> bool" where
  \<comment> \<open>\<open>s.startswith(p)\<close>\<close>
  "startswith s p = (take (length p) s = p)"

definition isspace :: "nat \<Rightarrow> bool" where
  \<comment> \<open>the code points that \<open>str.strip()\<close> removes\<close>
  "isspace c =
     ((9 \<le> c \<and> c \<le> 13) \<or> (28 \<le> c \<and> c \<le> 32) \<or> c = 133 \<or> c = 160 \<or> c = 5760
      \<or> (8192 \<le> c \<and> c \<le> 8202) \<or> c = 8232 \<or> c = 8233 \<or> c = 8239 \<or> c = 8287
      \<or> c = 12288)"

definition strip :: "str \<Rightarrow> str" where
  "strip s = rev (dropWhile isspace (rev (dropWhile isspace s)))"

fun split :: "nat \<Rightarrow> str \<Rightarrow> str list" where
  \<comment> \<open>\<open>s.split(sep)\<close> for a one-character separator\<close>
  "split sep [] = [[]]"
| "split sep (c # cs) =
     (if c = sep then [] # split sep cs
      else (case split sep cs of [] \<Rightarrow> [[c]] | w # ws \<Rightarrow> (c # w) # ws))"

definition comma :: nat where
  "comma = 44"

definition parse_tags :: "str \<Rightarrow> str list" where
  \<comment> \<open>\<open>[tag.strip() for tag in tags.split(",") if tag.strip()]\<close>\<close>
  "parse_tags s = map strip (filter (\<lambda>t. strip t \<noteq> []) (split comma s))"

fun digit_chr :: "nat \<Rightarrow> nat" where
  "digit_chr d = 48 + d"

function str_of_nat :: "nat \<Rightarrow> str" where
  \<comment> \<open>\<open>str(n)\<close> for a non-negative integer\<close>
  "str_of_nat n = (if n < 10 then [digit_chr n] else str_of_nat (n div 10) @ [digit_chr (n mod 10)])"
  by pat_completeness auto
termination
  by (relation "measure id") auto

declare str_of_nat.simps [simp del]


section \<open>The record model (app/models/file.py)\<close>

datatype FileStatus = ACTIVE | FLAGGED | DELETED | PROCESSING | PENDING_REVIEW

fun FileStatus_value :: "FileStatus \<Rightarrow> str" where
  "FileStatus_value ACTIVE = lit ''active''"
| "FileStatus_value FLAGGED = lit ''flagged''"
| "FileStatus_value DELETED = lit ''deleted''"
| "FileStatus_value PROCESSING = lit ''processing''"
| "FileStatus_value PENDING_REVIEW = lit ''pending_review''"

definition FileStatus_of :: "str \<Rightarrow> FileStatus option" where
  \<comment> \<open>the enum member with the given value, as the request validation looks it up\<close>
  "FileStatus_of s =
     (if s = lit ''active'' then Some ACTIVE
      else if s = lit ''flagged'' then Some FLAGGED
      else if s = lit ''deleted'' then Some DELETED
      else if s = lit ''processing'' then Some PROCESSING
      else if s = lit ''pending_review'' then Some PENDING_REVIEW
      else None)"

text \<open>
  \<open>GridFSFile\<close>: \<open>doc_id\<close> is the document's \<open>id\<close> (the store's primary key, as its
  string form), \<open>upload_date\<close> a timestamp.
\<close>

record GridFSFile =
  doc_id :: str
  filename :: str
  content_type :: str
  upload_date :: int
  file_id :: str
  owner_id :: "str option"
  status :: FileStatus
  file_size :: "int option"
  tags :: "str list"
  description :: "str option"
  metadata :: "(str \<times> str) list option"


section \<open>The two stores (app/database.py)\<close>

datatype bson = BStr str | BInt int | BNull

text \<open>A file of the GridFS bucket: what \<open>find\<close> and \<open>open_download_stream\<close> give back.\<close>

record grid_file =
  g_filename :: "str option"
  g_metadata :: "(str \<times> bson) list option"
  g_length :: nat
  g_chunks :: "bytes list"

text \<open>
  The mutating calls a handler makes on the stores, in the order it makes them.
\<close>

datatype store_call =
    Bucket_upload str
  | Bucket_delete str
  | Doc_insert str
  | Doc_update str
  | Doc_delete str

text \<open>
  The state outside the handlers: the bucket (keyed by the ObjectId, written as its 24
  lower-case hex digits), the \<open>gridfs_files\<close> collection in its natural order, the
  journal of mutating store calls, and what was printed.
\<close>

record state =
  bucket :: "(str \<times> grid_file) list"
  collection :: "GridFSFile list"
  journal :: "store_call list"
  stdout :: "str list"

datatype error =
    HTTPException nat str
  | RequestValidationError "str list"
  | Unhandled str


subsection \<open>ObjectId\<close>

definition is_hex :: "nat \<Rightarrow> bool" where
  "is_hex c = ((48 \<le> c \<and> c \<le> 57) \<or> (65 \<le> c \<and> c \<le> 70) \<or> (97 \<le> c \<and> c \<le> 102))"

definition ObjectId_is_valid :: "str \<Rightarrow> bool" where
  \<comment> \<open>\<open>ObjectId.is_valid\<close> of the bson library on a string without whitespace: 24 hex
     digits (the library also skips ASCII whitespace; no upload issues such an id)\<close>
  "ObjectId_is_valid s = (length s = 24 \<and> list_all is_hex s)"

definition ObjectId :: "str \<Rightarrow> str" where
  \<comment> \<open>\<open>ObjectId(s)\<close> for a valid \<open>s\<close>: the twelve bytes, written in lower-case hex\<close>
  "ObjectId s = map (\<lambda>c. if 65 \<le> c \<and> c \<le> 70 then c + 32 else c) s"


subsection \<open>Collection operations\<close>

fun find_one_file_id :: "str \<Rightarrow> GridFSFile list \<Rightarrow> GridFSFile option" where
  \<comment> \<open>\<open>GridFSFile.find_one({"file_id": file_id})\<close>\<close>
  "find_one_file_id f [] = None"
| "find_one_file_id f (r # rs) = (if file_id r = f then Some r else find_one_file_id f rs)"

definition refresh :: "GridFSFile \<Rightarrow> error + GridFSFile" where
  \<comment> \<open>\<open>file_doc.refresh()\<close>: the document class of the beanie library defines no
     \<open>refresh\<close> (its re-read is \<open>sync\<close>), so the call raises AttributeError\<close>
  "refresh d = Inl (Unhandled (lit ''AttributeError''))"

fun update_one :: "str \<Rightarrow> (GridFSFile \<Rightarrow> GridFSFile) \<Rightarrow> GridFSFile list \<Rightarrow> GridFSFile list" where
  \<comment> \<open>\<open>file_doc.update({"$set": ...})\<close>: one document, found by its primary key\<close>
  "update_one i f [] = []"
| "update_one i f (r # rs) = (if doc_id r = i then f r # rs else r # update_one i f rs)"

fun delete_one :: "str \<Rightarrow> GridFSFile list \<Rightarrow> GridFSFile list" where
  \<comment> \<open>\<open>file_doc.delete()\<close>: one document, found by its primary key\<close>
  "delete_one i [] = []"
| "delete_one i (r # rs) = (if doc_id r = i then rs else r # delete_one i rs)"


section \<open>Response models (app/main.py)\<close>

record FileUploadResponse =
  up_file_id :: str
  up_filename :: str
  up_file_size :: int
  up_status :: str
  up_owner_id :: "str option"

record FileListResponse =
  resp_id :: str
  resp_filename :: str
  resp_content_type :: "str option"
  resp_upload_date :: int
  resp_file_size :: "int option"
  resp_status :: FileStatus
  resp_owner_id :: "str option"
  resp_tags :: "str list"
  resp_description :: "str option"

definition to_response :: "GridFSFile \<Rightarrow> FileListResponse" where
  \<comment> \<open>the \<open>FileListResponse(...)\<close> built from a document, the same in four handlers\<close>
  "to_response d =
     \<lparr> resp_id = doc_id d,
       resp_filename = filename d,
       resp_content_type = Some (content_type d),
       resp_upload_date = upload_date d,
       resp_file_size = file_size d,
       resp_status = status d,
       resp_owner_id = owner_id d,
       resp_tags = tags d,
       resp_description = description d \<rparr>"


section \<open>GET /files: list_files\<close>

text \<open>
  The filter document the handler builds, one condition per key it sets.
\<close>

datatype cond =
    Owner_eq str
  | Status_eq FileStatus
  | Content_type_regex str str
  | Tags_in "str list"

definition build_filter ::
  "str option \<Rightarrow> FileStatus option \<Rightarrow> str option \<Rightarrow> str option \<Rightarrow> cond list" where
  "build_filter owner st ct tg =
     (case owner of None \<Rightarrow> [] | Some v \<Rightarrow> if v \<noteq> [] then [Owner_eq v] else [])
     @ (case st of None \<Rightarrow> [] | Some v \<Rightarrow> [Status_eq v])
     @ (case ct of None \<Rightarrow> []
        | Some v \<Rightarrow> if v \<noteq> [] then [Content_type_regex (lit ''^'' @ v) (lit ''i'')] else [])
     @ (case tg of None \<Rightarrow> []
        | Some v \<Rightarrow> if v \<noteq> [] then (let tag_list = parse_tags v
                                      in if tag_list \<noteq> [] then [Tags_in tag_list] else [])
                    else [])"

text \<open>
  What the collection does with one condition. The regular-expression operator belongs to
  the document store; it is the parameter \<open>rx\<close>: from a pattern and its options to the
  set of subjects it matches, or \<open>None\<close> when the store refuses the pattern.
\<close>

type_synonym regex_op = "str \<Rightarrow> str \<Rightarrow> (str \<Rightarrow> bool) option"

fun cond_pred :: "regex_op \<Rightarrow> cond \<Rightarrow> (GridFSFile \<Rightarrow> bool) option" where
  "cond_pred rx (Owner_eq v) = Some (\<lambda>r. owner_id r = Some v)"
| "cond_pred rx (Status_eq v) = Some (\<lambda>r. status r = v)"
| "cond_pred rx (Content_type_regex p opts) =
     (case rx p opts of None \<Rightarrow> None | Some m \<Rightarrow> Some (\<lambda>r. m (content_type r)))"
| "cond_pred rx (Tags_in vs) = Some (\<lambda>r. list_ex (\<lambda>t. t \<in> set vs) (tags r))"

fun compile_filter :: "regex_op \<Rightarrow> cond list \<Rightarrow> (GridFSFile \<Rightarrow> bool) option" where
  "compile_filter rx [] = Some (\<lambda>r. True)"
| "compile_filter rx (c # cs) =
     (case cond_pred rx c of None \<Rightarrow> None
      | Some p \<Rightarrow> (case compile_filter rx cs of None \<Rightarrow> None
                   | Some q \<Rightarrow> Some (\<lambda>r. p r \<and> q r)))"

definition find_all :: "regex_op \<Rightarrow> cond list \<Rightarrow> GridFSFile list \<Rightarrow> error + GridFSFile list" where
  \<comment> \<open>\<open>GridFSFile.find(filter_query)\<close>; a refused pattern is the store's exception\<close>
  "find_all rx q rs =
     (case compile_filter rx q of None \<Rightarrow> Inl (Unhandled (lit ''OperationFailure''))
      | Some p \<Rightarrow> Inr (filter p rs))"

definition paginate :: "nat \<Rightarrow> nat \<Rightarrow> 'a list \<Rightarrow> 'a list" where
  \<comment> \<open>\<open>.skip(skip).limit(limit)\<close> on a cursor; a limit of 0 is no limit\<close>
  "paginate skip limit xs = (if limit = 0 then drop skip xs else take limit (drop skip xs))"

definition list_files ::
  "regex_op \<Rightarrow> str option \<Rightarrow> FileStatus option \<Rightarrow> str option \<Rightarrow> str option
     \<Rightarrow> nat \<Rightarrow> nat \<Rightarrow> state \<Rightarrow> error + FileListResponse list" where
  \<comment> \<open>the handler body\<close>
  "list_files rx owner st ct tg limit skip s =
     (case find_all rx (build_filter owner st ct tg) (collection s) of
        Inl e \<Rightarrow> Inl e
      | Inr found \<Rightarrow> Inr (map to_response (paginate skip limit found)))"







subsection \<open>A regular-expression operator for concrete queries\<close>

text \<open>
  The store's \<open>$regex\<close> on the fragment of its pattern syntax made of literal characters,
  \<open>.\<close>, an escaped punctuation character, the postfix quantifiers \<open>*\<close>, \<open>+\<close>, \<open>?\<close>
  and a leading \<open>^\<close>. Every other pattern is outside the fragment (\<open>None\<close>). \<open>cf\<close> is
  the case folding the option \<open>i\<close> compares under.
\<close>

datatype tok = TLit nat | TDot | TStar | TPlus | TQuest

definition is_alnum :: "nat \<Rightarrow> bool" where
  "is_alnum c = ((48 \<le> c \<and> c \<le> 57) \<or> (65 \<le> c \<and> c \<le> 90) \<or> (97 \<le> c \<and> c \<le> 122))"

definition is_meta :: "nat \<Rightarrow> bool" where
  \<comment> \<open>\<open>\ ^ $ . [ ] | ( ) ? * + { }\<close>\<close>
  "is_meta c = (c \<in> set [92, 94, 36, 46, 91, 93, 124, 40, 41, 63, 42, 43, 123, 125])"

fun tokens :: "str \<Rightarrow> tok list option" where
  "tokens [] = Some []"
| "tokens (c # cs) =
     (if c = 92 then
        (case cs of [] \<Rightarrow> None
         | d # ds \<Rightarrow> if is_alnum d then None else map_option ((#) (TLit d)) (tokens ds))
      else if c = 46 then map_option ((#) TDot) (tokens cs)
      else if c = 42 then map_option ((#) TStar) (tokens cs)
      else if c = 43 then map_option ((#) TPlus) (tokens cs)
      else if c = 63 then map_option ((#) TQuest) (tokens cs)
      else if is_meta c then None
      else map_option ((#) (TLit c)) (tokens cs))"

datatype atom = Lit nat | Dot

datatype item = One atom | Many atom | Some1 atom | Maybe atom

fun atom_of :: "tok \<Rightarrow> atom option" where
  "atom_of (TLit c) = Some (Lit c)"
| "atom_of TDot = Some Dot"
| "atom_of _ = None"

fun items :: "tok list \<Rightarrow> item list option" where
  "items [] = Some []"
| "items [t] = map_option (\<lambda>a. [One a]) (atom_of t)"
| "items (t # q # ts) =
     (case atom_of t of None \<Rightarrow> None
      | Some a \<Rightarrow>
          (case atom_of q of Some _ \<Rightarrow> map_option ((#) (One a)) (items (q # ts))
           | None \<Rightarrow>
              (case ts of u # _ \<Rightarrow> if atom_of u = None then None
                                   else map_option ((#) (case q of TStar \<Rightarrow> Many a | TPlus \<Rightarrow> Some1 a | _ \<Rightarrow> Maybe a)) (items ts)
               | [] \<Rightarrow> Some [case q of TStar \<Rightarrow> Many a | TPlus \<Rightarrow> Some1 a | _ \<Rightarrow> Maybe a])))"

fun atom_matches :: "(nat \<Rightarrow> nat) \<Rightarrow> atom \<Rightarrow> nat \<Rightarrow> bool" where
  "atom_matches cf (Lit x) c = (cf x = cf c)"
| "atom_matches cf Dot c = (c \<noteq> 10)"

text \<open>\<open>match_here cf is s\<close>: some prefix of \<open>s\<close> matches the sequence \<open>is\<close>.\<close>

function match_here :: "(nat \<Rightarrow> nat) \<Rightarrow> item list \<Rightarrow> str \<Rightarrow> bool" where
  "match_here cf [] s = True"
| "match_here cf (One a # r) [] = False"
| "match_here cf (One a # r) (c # cs) = (atom_matches cf a c \<and> match_here cf r cs)"
| "match_here cf (Maybe a # r) [] = match_here cf r []"
| "match_here cf (Maybe a # r) (c # cs) =
     (match_here cf r (c # cs) \<or> (atom_matches cf a c \<and> match_here cf r cs))"
| "match_here cf (Many a # r) [] = match_here cf r []"
| "match_here cf (Many a # r) (c # cs) =
     (match_here cf r (c # cs) \<or> (atom_matches cf a c \<and> match_here cf (Many a # r) cs))"
| "match_here cf (Some1 a # r) [] = False"
| "match_here cf (Some1 a # r) (c # cs) = (atom_matches cf a c \<and> match_here cf (Many a # r) cs)"
  by pat_completeness auto
termination
  by (relation "measures [\<lambda>(cf, r, s). length s, \<lambda>(cf, r, s). length r]") auto

fun match_anywhere :: "(nat \<Rightarrow> nat) \<Rightarrow> item list \<Rightarrow> str \<Rightarrow> bool" where
  "match_anywhere cf r [] = match_here cf r []"
| "match_anywhere cf r (c # cs) = (match_here cf r (c # cs) \<or> match_anywhere cf r cs)"

definition regex_fragment :: "(nat \<Rightarrow> nat) \<Rightarrow> regex_op" where
  "regex_fragment cf p opts =
     (if opts \<noteq> [] \<and> opts \<noteq> lit ''i'' then None
      else let fold = (if opts = [] then (\<lambda>c. c) else cf)
           in (case p of
                 [] \<Rightarrow> Some (\<lambda>s. True)
               | c # cs \<Rightarrow>
                   if c = 94 then map_option (\<lambda>r. match_here fold r) (Option.bind (tokens cs) items)
                   else map_option (\<lambda>r. match_anywhere fold r) (Option.bind (tokens (c # cs)) items)))"

definition ascii_lower :: "nat \<Rightarrow> nat" where
  "ascii_lower c = (if 65 \<le> c \<and> c \<le> 90 then c + 32 else c)"


section \<open>POST /upload: upload_file\<close>

record UploadFile =
  u_content_type :: "str option"
  u_filename :: "str option"
  u_content :: bytes

text \<open>
  What the environment supplies to an upload: the ObjectId the bucket gives the new file,
  the primary key the collection gives the new document, and the clock.
\<close>

record upload_env =
  e_new_oid :: str
  e_new_doc_id :: str
  e_now :: int

definition chunk_size_bytes :: nat where
  \<comment> \<open>the bucket's default chunk size, 255 KiB\<close>
  "chunk_size_bytes = 261120"

function chunks_of :: "nat \<Rightarrow> bytes \<Rightarrow> bytes list" where
  "chunks_of n bs = (if n = 0 \<or> bs = [] then [] else take n bs # chunks_of n (drop n bs))"
  by pat_completeness auto
termination
  by (relation "measure (\<lambda>(n, bs). length bs)") auto

declare chunks_of.simps [simp del]

definition allowed_content_type :: "str option \<Rightarrow> bool" where
  \<comment> \<open>the negation of the guard
     \<open>not file.content_type or not file.content_type.startswith(("image/", "video/"))\<close>\<close>
  "allowed_content_type c =
     (case c of None \<Rightarrow> False
      | Some t \<Rightarrow> t \<noteq> [] \<and> (startswith t (lit ''image/'') \<or> startswith t (lit ''video/'')))"

definition upload_from_stream :: "str \<Rightarrow> str \<Rightarrow> bytes \<Rightarrow> (str \<times> bson) list \<Rightarrow> state \<Rightarrow> state" where
  "upload_from_stream oid name content meta s =
     s\<lparr> bucket := bucket s @ [(oid, \<lparr> g_filename = Some name, g_metadata = Some meta,
                                      g_length = length content,
                                      g_chunks = chunks_of chunk_size_bytes content \<rparr>)],
        journal := journal s @ [Bucket_upload oid] \<rparr>"

definition insert_doc :: "GridFSFile \<Rightarrow> state \<Rightarrow> state" where
  "insert_doc d s =
     s\<lparr> collection := collection s @ [d], journal := journal s @ [Doc_insert (doc_id d)] \<rparr>"

definition upload_file ::
  "upload_env \<Rightarrow> UploadFile \<Rightarrow> str option \<Rightarrow> str option \<Rightarrow> str option \<Rightarrow> state
     \<Rightarrow> (error + FileUploadResponse) \<times> state" where
  "upload_file env file owner tg descr s =
     (if \<not> allowed_content_type (u_content_type file)
      then (Inl (HTTPException 400 (lit ''Only images and videos are allowed'')), s)
      else
        let ctype = (case u_content_type file of None \<Rightarrow> [] | Some t \<Rightarrow> t);
            fname = (case u_filename file of None \<Rightarrow> lit ''unnamed_file''
                     | Some f \<Rightarrow> if f = [] then lit ''unnamed_file'' else f);
            fsize = int (length (u_content file));
            tag_list = (case tg of None \<Rightarrow> []
                        | Some t \<Rightarrow> if t = [] then [] else parse_tags t);
            s1 = upload_from_stream (e_new_oid env) fname (u_content file)
                   [(lit ''content_type'', BStr ctype),
                    (lit ''original_name'', BStr fname),
                    (lit ''owner_id'', (case owner of None \<Rightarrow> BNull | Some v \<Rightarrow> BStr v)),
                    (lit ''file_size'', BInt fsize)] s;
            gridfs_file =
              \<lparr> doc_id = e_new_doc_id env, filename = fname, content_type = ctype,
                upload_date = e_now env, file_id = e_new_oid env, owner_id = owner,
                status = ACTIVE, file_size = Some fsize, tags = tag_list, description = descr,
                metadata = Some [(lit ''uploaded_by'', lit ''api''),
                                 (lit ''source'', lit ''upload_endpoint'')] \<rparr>;
            s2 = insert_doc gridfs_file s1
        in (Inr \<lparr> up_file_id = e_new_oid env, up_filename = fname, up_file_size = fsize,
                  up_status = FileStatus_value (status gridfs_file), up_owner_id = owner \<rparr>, s2))"


section \<open>GET /files/{file_id}: get_file\<close>

subsection \<open>Encodings\<close>

definition encode_ascii :: "str \<Rightarrow> bytes option" where
  \<comment> \<open>\<open>s.encode('ascii')\<close>; \<open>None\<close> is UnicodeEncodeError\<close>
  "encode_ascii s = (if list_all (\<lambda>c. c < 128) s then Some s else None)"

definition decode_ascii :: "bytes \<Rightarrow> str" where
  \<comment> \<open>\<open>b.decode('ascii')\<close> of bytes below 128\<close>
  "decode_ascii b = b"

definition utf8_char :: "nat \<Rightarrow> bytes option" where
  \<comment> \<open>the UTF-8 bytes of one code point; surrogates cannot be encoded\<close>
  "utf8_char c =
     (if c < 128 then Some [c]
      else if c < 2048 then Some [192 + c div 64, 128 + c mod 64]
      else if c < 65536 then
        (if 55296 \<le> c \<and> c \<le> 57343 then None
         else Some [224 + c div 4096, 128 + (c div 64) mod 64, 128 + c mod 64])
      else if c < 1114112 then
        Some [240 + c div 262144, 128 + (c div 4096) mod 64, 128 + (c div 64) mod 64, 128 + c mod 64]
      else None)"

fun encode_utf8 :: "str \<Rightarrow> bytes option" where
  \<comment> \<open>\<open>s.encode('utf-8')\<close>; \<open>None\<close> is UnicodeEncodeError\<close>
  "encode_utf8 [] = Some []"
| "encode_utf8 (c # cs) =
     (case utf8_char c of None \<Rightarrow> None
      | Some b \<Rightarrow> (case encode_utf8 cs of None \<Rightarrow> None | Some bs \<Rightarrow> Some (b @ bs)))"

definition hex_digit :: "nat \<Rightarrow> nat" where
  \<comment> \<open>upper-case hex digit of a value below 16\<close>
  "hex_digit d = (if d < 10 then 48 + d else 55 + d)"

definition quote_safe :: "nat \<Rightarrow> bool" where
  \<comment> \<open>the bytes \<open>quote\<close> leaves alone: letters, digits, \<open>_.-~\<close> and the default
     \<open>safe='/'\<close>\<close>
  "quote_safe b = (is_alnum b \<or> b = 95 \<or> b = 46 \<or> b = 45 \<or> b = 126 \<or> b = 47)"

definition quote_byte :: "nat \<Rightarrow> str" where
  "quote_byte b = (if quote_safe b then [b] else [37, hex_digit (b div 16), hex_digit (b mod 16)])"

definition quote :: "bytes \<Rightarrow> str" where
  \<comment> \<open>\<open>urllib.parse.quote\<close> on bytes\<close>
  "quote bs = concat (map quote_byte bs)"

subsection \<open>The handler\<close>

datatype stream_outcome = Opened | TimeoutError | Raised str

record download_env =
  d_open :: stream_outcome
  d_disconnected :: "bool list"

record StreamingResponse =
  sr_body :: "bytes list"
  sr_media_type :: bson
  sr_headers :: "(str \<times> str) list"

text \<open>
  The generator \<open>stream_file\<close>: the chunks it yields, given the answers of
  \<open>request.is_disconnected()\<close> after each chunk (none left means still connected), and
  what it prints.
\<close>

fun stream_file :: "bytes list \<Rightarrow> bool list \<Rightarrow> bytes list \<times> str list" where
  "stream_file [] ds = ([], [])"
| "stream_file (chunk # rest) ds =
     (if chunk = [] then ([], [])
      else (case ds of
              [] \<Rightarrow> (let (ys, out) = stream_file rest [] in (chunk # ys, out))
            | d # ds' \<Rightarrow>
                if d then ([chunk], [lit ''Client Disconnected during download''])
                else (let (ys, out) = stream_file rest ds' in (chunk # ys, out))))"

definition content_disposition :: "str \<Rightarrow> error + str" where
  \<comment> \<open>lines 180 to 187: ASCII first, otherwise the percent-encoded UTF-8 bytes\<close>
  "content_disposition fname =
     (case encode_ascii fname of
        Some b \<Rightarrow> Inr (lit ''attachment; filename='' @ decode_ascii b)
      | None \<Rightarrow>
          (case encode_utf8 fname of
             None \<Rightarrow> Inl (Unhandled (lit ''UnicodeEncodeError''))
           | Some bs \<Rightarrow> Inr (lit ''attachment; filename*=UTF-8'' @ [39, 39] @ quote bs)))"

definition get_file :: "download_env \<Rightarrow> str \<Rightarrow> state \<Rightarrow> (error + StreamingResponse) \<times> state" where
  "get_file env fid s =
     (if \<not> ObjectId_is_valid fid then (Inl (HTTPException 400 (lit ''Invalid file ID'')), s)
      else
        (case map_of (bucket s) (ObjectId fid) of
           None \<Rightarrow> (Inl (HTTPException 404 (lit ''File Not Found in GridFS'')), s)
         | Some file_doc \<Rightarrow>
             let fname = (case g_filename file_doc of None \<Rightarrow> lit ''file''
                          | Some f \<Rightarrow> if f = [] then lit ''file'' else f);
                 ctype = (case g_metadata file_doc of None \<Rightarrow> BStr (lit ''video/mp4'')
                          | Some m \<Rightarrow>
                              if m = [] then BStr (lit ''video/mp4'')
                              else (case map_of m (lit ''content_type'') of
                                      None \<Rightarrow> BStr (lit ''video/mp4'') | Some v \<Rightarrow> v));
                 fsize = g_length file_doc
             in (case d_open env of
                   TimeoutError \<Rightarrow>
                     (Inl (HTTPException 504 (lit ''Timeout File too large or server busy'')), s)
                 | Raised e \<Rightarrow> (Inl (HTTPException 400 (lit ''Stream error: '' @ e)), s)
                 | Opened \<Rightarrow>
                     (case content_disposition fname of
                        Inl e \<Rightarrow> (Inl e, s)
                      | Inr cd \<Rightarrow>
                          let (body, out) = stream_file (g_chunks file_doc) (d_disconnected env)
                          in (Inr \<lparr> sr_body = body, sr_media_type = ctype,
                                    sr_headers =
                                      [(lit ''Content-Disposition'', cd),
                                       (lit ''Accept-Ranges'', lit ''bytes''),
                                       (lit ''Content-Length'', str_of_nat fsize),
                                       (lit ''Cache-Control'', lit ''public, max-age=3600'')] \<rparr>,
                              s\<lparr> stdout := stdout s @ out \<rparr>)))))"


section \<open>GET /files/{file_id}/info: get_file_info\<close>

definition get_file_info :: "str \<Rightarrow> state \<Rightarrow> error + FileListResponse" where
  "get_file_info fid s =
     (if \<not> ObjectId_is_valid fid then Inl (HTTPException 400 (lit ''Invalid file ID''))
      else (case find_one_file_id fid (collection s) of
              None \<Rightarrow> Inl (HTTPException 404 (lit ''File not found''))
            | Some file_doc \<Rightarrow> Inr (to_response file_doc)))"


section \<open>PUT /files/{file_id}: update_file\<close>

text \<open>
  A key of the JSON body: not there, there with \<open>null\<close>, or there with a value. The model
  \<open>FileUpdateRequest\<close> declares each field \<open>Optional[...] = None\<close>.
\<close>

datatype 'a field = Absent | Null | Given 'a

record update_body =
  b_status :: "str field"
  b_tags :: "str list field"
  b_description :: "str field"

record FileUpdateRequest =
  upd_status :: "FileStatus option"
  upd_tags :: "str list option"
  upd_description :: "str option"

fun optional :: "'a field \<Rightarrow> 'a option" where
  "optional Absent = None"
| "optional Null = None"
| "optional (Given v) = Some v"

definition parse_update :: "update_body \<Rightarrow> error + FileUpdateRequest" where
  \<comment> \<open>validation of the body against \<open>FileUpdateRequest\<close>\<close>
  "parse_update b =
     (case optional (b_status b) of
        None \<Rightarrow> Inr \<lparr> upd_status = None, upd_tags = optional (b_tags b),
                       upd_description = optional (b_description b) \<rparr>
      | Some v \<Rightarrow>
          (case FileStatus_of v of
             None \<Rightarrow> Inl (RequestValidationError [lit ''status''])
           | Some x \<Rightarrow> Inr \<lparr> upd_status = Some x, upd_tags = optional (b_tags b),
                             upd_description = optional (b_description b) \<rparr>))"

datatype assignment = Set_status FileStatus | Set_tags "str list" | Set_description str

fun assign :: "assignment \<Rightarrow> GridFSFile \<Rightarrow> GridFSFile" where
  "assign (Set_status v) d = d\<lparr>status := v\<rparr>"
| "assign (Set_tags v) d = d\<lparr>tags := v\<rparr>"
| "assign (Set_description v) d = d\<lparr>description := Some v\<rparr>"

definition set_fields :: "assignment list \<Rightarrow> GridFSFile \<Rightarrow> GridFSFile" where
  \<comment> \<open>\<open>{"$set": update_dict}\<close>\<close>
  "set_fields u d = fold assign u d"

definition update_dict :: "FileUpdateRequest \<Rightarrow> assignment list" where
  "update_dict u =
     (case upd_status u of None \<Rightarrow> [] | Some v \<Rightarrow> [Set_status v])
     @ (case upd_tags u of None \<Rightarrow> [] | Some v \<Rightarrow> [Set_tags v])
     @ (case upd_description u of None \<Rightarrow> [] | Some v \<Rightarrow> [Set_description v])"

definition doc_update :: "str \<Rightarrow> assignment list \<Rightarrow> state \<Rightarrow> state" where
  "doc_update i u s =
     s\<lparr> collection := update_one i (set_fields u) (collection s),
        journal := journal s @ [Doc_update i] \<rparr>"

definition update_file :: "str \<Rightarrow> FileUpdateRequest \<Rightarrow> state \<Rightarrow> (error + FileListResponse) \<times> state" where
  "update_file fid update_data s =
     (if \<not> ObjectId_is_valid fid then (Inl (HTTPException 400 (lit ''Invalid file ID'')), s)
      else (case find_one_file_id fid (collection s) of
              None \<Rightarrow> (Inl (HTTPException 404 (lit ''File not found'')), s)
            | Some file_doc \<Rightarrow>
                if update_dict update_data \<noteq> [] then
                  (let s' = doc_update (doc_id file_doc) (update_dict update_data) s
                   in (case refresh file_doc of
                         Inl e \<Rightarrow> (Inl e, s')
                       | Inr refreshed \<Rightarrow> (Inr (to_response refreshed), s')))
                else (Inr (to_response file_doc), s)))"

definition put_file :: "str \<Rightarrow> update_body \<Rightarrow> state \<Rightarrow> (error + FileListResponse) \<times> state" where
  \<comment> \<open>the route \<open>PUT /files/{file_id}\<close>: body validation, then \<open>update_file\<close>\<close>
  "put_file fid body s =
     (case parse_update body of Inl e \<Rightarrow> (Inl e, s) | Inr u \<Rightarrow> update_file fid u s)"


section \<open>DELETE /files/{file_id}: delete_file\<close>

text \<open>
  \<open>gridfs_bucket.delete(oid)\<close>: it raises when the file is not in the bucket, and when the
  store fails (the environment's \<open>fault\<close>); then the bucket is as before.
\<close>

definition bucket_delete :: "str option \<Rightarrow> str \<Rightarrow> state \<Rightarrow> str option \<times> state" where
  "bucket_delete fault oid s =
     (let s' = s\<lparr> journal := journal s @ [Bucket_delete oid] \<rparr>
      in (case fault of
            Some e \<Rightarrow> (Some e, s')
          | None \<Rightarrow>
              if map_of (bucket s) oid = None
              then (Some (lit ''no file could be deleted because none matched '' @ oid), s')
              else (None, s'\<lparr> bucket := filter (\<lambda>kv. fst kv \<noteq> oid) (bucket s) \<rparr>)))"

definition doc_delete :: "str \<Rightarrow> state \<Rightarrow> state" where
  "doc_delete i s =
     s\<lparr> collection := delete_one i (collection s), journal := journal s @ [Doc_delete i] \<rparr>"

definition delete_file :: "str option \<Rightarrow> str \<Rightarrow> bool \<Rightarrow> state \<Rightarrow> (error + (str \<times> str) list) \<times> state" where
  "delete_file fault fid permanent s =
     (if \<not> ObjectId_is_valid fid then (Inl (HTTPException 400 (lit ''Invalid file ID'')), s)
      else (case find_one_file_id fid (collection s) of
              None \<Rightarrow> (Inl (HTTPException 404 (lit ''File not found'')), s)
            | Some file_doc \<Rightarrow>
                if permanent then
                  (let (raised, s1) = bucket_delete fault (ObjectId fid) s;
                       s2 = (case raised of None \<Rightarrow> s1
                             | Some e \<Rightarrow> s1\<lparr> stdout := stdout s1 @ [lit ''Error deleting from GridFS: '' @ e] \<rparr>);
                       s3 = doc_delete (doc_id file_doc) s2
                   in (Inr [(lit ''message'', lit ''File permanently deleted''), (lit ''file_id'', fid)], s3))
                else
                  (let s1 = doc_update (doc_id file_doc) [Set_status DELETED] s
                   in (Inr [(lit ''message'', lit ''File marked as deleted''), (lit ''file_id'', fid),
                            (lit ''status'', lit ''deleted'')], s1))))"


section \<open>Reading a header value back\<close>

text \<open>
  Percent-decoding and UTF-8 decoding, as a reader of the header applies them. They are
  not part of the service; the download theorem states the encoded filename through them.
\<close>

definition unhex :: "nat \<Rightarrow> nat option" where
  "unhex c =
     (if 48 \<le> c \<and> c \<le> 57 then Some (c - 48)
      else if 65 \<le> c \<and> c \<le> 70 then Some (c - 55)
      else if 97 \<le> c \<and> c \<le> 102 then Some (c - 87)
      else None)"

fun unquote :: "str \<Rightarrow> bytes option" where
  "unquote [] = Some []"
| "unquote (c # cs) =
     (if c = 37 then
        (case cs of
           h # l # r \<Rightarrow>
             (case unhex h of None \<Rightarrow> None
              | Some a \<Rightarrow> (case unhex l of None \<Rightarrow> None
                           | Some b \<Rightarrow> map_option ((#) (16 * a + b)) (unquote r)))
         | _ \<Rightarrow> None)
      else if c < 128 then map_option ((#) c) (unquote cs)
      else None)"

definition continuation :: "nat \<Rightarrow> bool" where
  "continuation b = (128 \<le> b \<and> b < 192)"

fun decode_utf8 :: "bytes \<Rightarrow> str option" where
  "decode_utf8 [] = Some []"
| "decode_utf8 (b # bs) =
     (if b < 128 then map_option ((#) b) (decode_utf8 bs)
      else if b < 192 then None
      else if b < 224 then
        (case bs of
           b1 # r \<Rightarrow>
             if continuation b1
             then map_option ((#) ((b - 192) * 64 + (b1 - 128))) (decode_utf8 r)
             else None
         | _ \<Rightarrow> None)
      else if b < 240 then
        (case bs of
           b1 # b2 # r \<Rightarrow>
             if continuation b1 \<and> continuation b2
             then map_option ((#) ((b - 224) * 4096 + (b1 - 128) * 64 + (b2 - 128))) (decode_utf8 r)
             else None
         | _ \<Rightarrow> None)
      else if b < 248 then
        (case bs of
           b1 # b2 # b3 # r \<Rightarrow>
             if continuation b1 \<and> continuation b2 \<and> continuation b3
             then map_option ((#) ((b - 240) * 262144 + (b1 - 128) * 4096 + (b2 - 128) * 64 + (b3 - 128)))
                    (decode_utf8 r)
             else None
         | _ \<Rightarrow> None)
      else None)"


text \<open>
  RFC 5987, section 3.2.1: the value of an extended parameter after \<open>UTF-8''\<close> is a
  sequence of \<open>pct-encoded\<close> (\<open>%\<close> and two hex digits) and \<open>attr-char\<close> (letters,
  digits and \<open>! # $ & + - . ^ _ ` | ~\<close>).
\<close>

definition attr_char :: "nat \<Rightarrow> bool" where
  "attr_char c = (is_alnum c \<or> c \<in> set [33, 35, 36, 38, 43, 45, 46, 94, 95, 96, 124, 126])"

fun value_chars :: "str \<Rightarrow> bool" where
  "value_chars [] = True"
| "value_chars (c # cs) =
     (if c = 37 then
        (case cs of h # l # r \<Rightarrow> is_hex h \<and> is_hex l \<and> value_chars r | _ \<Rightarrow> False)
      else attr_char c \<and> value_chars cs)"


section \<open>Concrete data for the closed theorems\<close>

definition ex_doc_svg :: GridFSFile where
  "ex_doc_svg =
     \<lparr> doc_id = lit ''64b7f0a1c2d3e4f5a6b7c801'', filename = lit ''logo.svg'',
       content_type = lit ''image/svg+xml'', upload_date = 1700000000,
       file_id = lit ''64b7f0a1c2d3e4f5a6b7c8d1'', owner_id = Some (lit ''alice''),
       status = ACTIVE, file_size = Some 3, tags = [lit ''a''],
       description = Some (lit ''logo''),
       metadata = Some [(lit ''uploaded_by'', lit ''api''), (lit ''source'', lit ''upload_endpoint'')] \<rparr>"

definition ex_doc_png :: GridFSFile where
  \<comment> \<open>a soft-deleted record whose filename is \<open>caf\<close>, U+00E9, \<open>.png\<close>\<close>
  "ex_doc_png =
     \<lparr> doc_id = lit ''64b7f0a1c2d3e4f5a6b7c802'', filename = lit ''caf'' @ [233] @ lit ''.png'',
       content_type = lit ''image/png'', upload_date = 1700000100,
       file_id = lit ''64b7f0a1c2d3e4f5a6b7c8d2'', owner_id = Some (lit ''alice''),
       status = DELETED, file_size = Some 10, tags = [lit ''x'', lit ''y''],
       description = None,
       metadata = Some [(lit ''uploaded_by'', lit ''api''), (lit ''source'', lit ''upload_endpoint'')] \<rparr>"

definition ex_doc_mp4 :: GridFSFile where
  "ex_doc_mp4 =
     \<lparr> doc_id = lit ''64b7f0a1c2d3e4f5a6b7c803'', filename = lit ''clip.mp4'',
       content_type = lit ''video/mp4'', upload_date = 1700000200,
       file_id = lit ''64b7f0a1c2d3e4f5a6b7c8d3'', owner_id = None,
       status = ACTIVE, file_size = Some 2, tags = [lit ''b'', lit ''c''],
       description = None,
       metadata = Some [(lit ''uploaded_by'', lit ''api''), (lit ''source'', lit ''upload_endpoint'')] \<rparr>"

definition ex_blob :: "GridFSFile \<Rightarrow> bytes \<Rightarrow> str \<times> grid_file" where
  \<comment> \<open>the bucket entry an upload leaves for a record\<close>
  "ex_blob d content =
     (file_id d,
      \<lparr> g_filename = Some (filename d),
        g_metadata = Some [(lit ''content_type'', BStr (content_type d)),
                           (lit ''original_name'', BStr (filename d)),
                           (lit ''owner_id'', (case owner_id d of None \<Rightarrow> BNull | Some v \<Rightarrow> BStr v)),
                           (lit ''file_size'', BInt (int (length content)))],
        g_length = length content,
        g_chunks = [content] \<rparr>)"

definition ex_state :: state where
  "ex_state =
     \<lparr> bucket = [ex_blob ex_doc_svg [60, 47, 62],
                 ex_blob ex_doc_png [137, 80, 78, 71, 13, 10, 26, 10, 0, 0],
                 ex_blob ex_doc_mp4 [0, 0]],
       collection = [ex_doc_svg, ex_doc_png, ex_doc_mp4],
       journal = [],
       stdout = [] \<rparr>"

definition ex_rx :: regex_op where
  "ex_rx = regex_fragment ascii_lower"


definition ex_upload_env :: upload_env where
  "ex_upload_env =
     \<lparr> e_new_oid = lit ''64b7f0a1c2d3e4f5a6b7c8d4'', e_new_doc_id = lit ''64b7f0a1c2d3e4f5a6b7c804'',
       e_now = 1700000300 \<rparr>"

definition ex_download_env :: download_env where
  "ex_download_env = \<lparr> d_open = Opened, d_disconnected = [] \<rparr>"


definition ex_fid :: str where
  \<comment> \<open>the file id of \<open>ex_doc_svg\<close>\<close>
  "ex_fid = lit ''64b7f0a1c2d3e4f5a6b7c8d1''"

definition ex_update :: FileUpdateRequest where
  "ex_update = \<lparr> upd_status = None, upd_tags = Some [lit ''n'', lit ''m''], upd_description = None \<rparr>"

definition ex_body :: update_body where
  "ex_body = \<lparr> b_status = Absent, b_tags = Given [lit ''n'', lit ''m''], b_description = Null \<rparr>"

definition ex_slash_file :: UploadFile where
  \<comment> \<open>an image whose filename is U+00E9, \<open>/\<close>, \<open>x\<close>\<close>
  "ex_slash_file =
     \<lparr> u_content_type = Some (lit ''image/png''), u_filename = Some [233, 47, 120],
       u_content = [1, 2] \<rparr>"

definition ex_text_file :: UploadFile where
  "ex_text_file =
     \<lparr> u_content_type = Some (lit ''text/plain''), u_filename = Some (lit ''notes.txt''),
       u_content = [104, 105] \<rparr>"


definition ex_fid_png :: str where
  \<comment> \<open>the file id of \<open>ex_doc_png\<close>\<close>
  "ex_fid_png = lit ''64b7f0a1c2d3e4f5a6b7c8d2''"


section \<open>Facts about the filter\<close>

lemma compile_filter_None_iff:
  "compile_filter rx cs = None \<longleftrightarrow> (\<exists>c\<in>set cs. cond_pred rx c = None)"
  by (induction cs) (auto split: option.splits)

lemma compile_filter_Some:
  "compile_filter rx cs = Some p \<Longrightarrow>
   p r = list_all (\<lambda>c. case cond_pred rx c of None \<Rightarrow> False | Some f \<Rightarrow> f r) cs"
  by (induction cs arbitrary: p) (auto split: option.splits)

lemma build_filter_accepted:
  assumes "\<forall>v. ct = Some v \<and> v \<noteq> [] \<longrightarrow> rx (lit ''^'' @ v) (lit ''i'') \<noteq> None"
  shows "compile_filter rx (build_filter owner st ct tg) \<noteq> None"
  using assms
  by (auto simp: compile_filter_None_iff build_filter_def Let_def split: option.splits if_splits)


section \<open>C1: the limit of a listing\<close>





section \<open>C2: uploads of other media types\<close>

text \<open>
  C2. An upload whose advertised content type is missing, or starts with neither
  \<open>image/\<close> nor \<open>video/\<close>, fails with status 400, and the state it leaves is the state
  it found: no file in the bucket, no document in the collection, no store call made.
\<close>

theorem upload_file_rejects_other_media:
  assumes "u_content_type file = None
           \<or> (\<exists>t. u_content_type file = Some t
                  \<and> \<not> startswith t (lit ''image/'') \<and> \<not> startswith t (lit ''video/''))"
  shows "upload_file env file owner tg descr s
           = (Inl (HTTPException 400 (lit ''Only images and videos are allowed'')), s)"
proof -
  have "\<not> allowed_content_type (u_content_type file)"
    using assms by (auto simp: allowed_content_type_def)
  then show ?thesis
    by (simp add: upload_file_def)
qed

text \<open>C2 at a concrete upload of a \<open>text/plain\<close> file.\<close>

theorem upload_file_rejects_witness:
  "upload_file ex_upload_env ex_text_file (Some (lit ''alice'')) (Some (lit ''x,y'')) None ex_state
     = (Inl (HTTPException 400 (lit ''Only images and videos are allowed'')), ex_state)"
  using upload_file_rejects_other_media
          [of ex_text_file ex_upload_env "Some (lit ''alice'')" "Some (lit ''x,y'')" None ex_state]
  by (simp add: ex_text_file_def startswith_def lit_def)


section \<open>Facts about the encodings\<close>

lemma decode2:
  "h < 32 \<Longrightarrow> l < 64 \<Longrightarrow>
   decode_utf8 ((192 + h) # (128 + l) # rest) = map_option ((#) (h * 64 + l)) (decode_utf8 rest)"
  by (simp add: continuation_def)

lemma decode3:
  "h < 16 \<Longrightarrow> l1 < 64 \<Longrightarrow> l2 < 64 \<Longrightarrow>
   decode_utf8 ((224 + h) # (128 + l1) # (128 + l2) # rest)
     = map_option ((#) (h * 4096 + l1 * 64 + l2)) (decode_utf8 rest)"
  by (simp add: continuation_def)

lemma decode4:
  "h < 8 \<Longrightarrow> l1 < 64 \<Longrightarrow> l2 < 64 \<Longrightarrow> l3 < 64 \<Longrightarrow>
   decode_utf8 ((240 + h) # (128 + l1) # (128 + l2) # (128 + l3) # rest)
     = map_option ((#) (h * 262144 + l1 * 4096 + l2 * 64 + l3)) (decode_utf8 rest)"
  by (simp add: continuation_def)

lemma split2: "(c::nat) div 64 * 64 + c mod 64 = c"
  by simp


lemma split3: "(c::nat) div 4096 * 4096 + c div 64 mod 64 * 64 + c mod 64 = c"
proof -
  define q where "q = c div 64"
  have expand: "(a * 64 + b) * 64 + d = a * 4096 + b * 64 + d" for a b d :: nat
    by simp
  have "c div 4096 = q div 64"
    by (simp add: q_def div_mult2_eq)
  then have "c div 4096 * 4096 + c div 64 mod 64 * 64 + c mod 64
               = q div 64 * 4096 + q mod 64 * 64 + c mod 64"
    by (simp only: q_def)
  also have "\<dots> = (q div 64 * 64 + q mod 64) * 64 + c mod 64"
    by (simp only: expand)
  also have "\<dots> = q * 64 + c mod 64"
    by (simp only: div_mult_mod_eq)
  also have "\<dots> = c"
    by (simp only: q_def div_mult_mod_eq)
  finally show ?thesis .
qed

lemma split4:
  "(c::nat) div 262144 * 262144 + c div 4096 mod 64 * 4096 + c div 64 mod 64 * 64 + c mod 64 = c"
proof -
  define q where "q = c div 4096"
  have expand: "(a * 64 + b) * 4096 + d + e = a * 262144 + b * 4096 + d + e" for a b d e :: nat
    by simp
  have "c div 262144 = q div 64"
    by (simp add: q_def div_mult2_eq)
  then have "c div 262144 * 262144 + c div 4096 mod 64 * 4096 + c div 64 mod 64 * 64 + c mod 64
          = q div 64 * 262144 + q mod 64 * 4096 + c div 64 mod 64 * 64 + c mod 64"
    by (simp only: q_def)
  also have "\<dots> = (q div 64 * 64 + q mod 64) * 4096 + c div 64 mod 64 * 64 + c mod 64"
    by (simp only: expand)
  also have "\<dots> = q * 4096 + c div 64 mod 64 * 64 + c mod 64"
    by (simp only: div_mult_mod_eq)
  also have "\<dots> = c"
    unfolding q_def by (rule split3)
  finally show ?thesis .
qed

lemma decode_utf8_char:
  assumes "utf8_char c = Some bs"
  shows "decode_utf8 (bs @ rest) = map_option ((#) c) (decode_utf8 rest)"
proof -
  have m: "c mod 64 < 64" "c div 64 mod 64 < 64" "c div 4096 mod 64 < 64"
    by simp_all
  consider "c < 128" | "128 \<le> c" "c < 2048" | "2048 \<le> c" "c < 65536" | "65536 \<le> c" "c < 1114112"
    using assms by (cases "c < 1114112") (simp_all add: utf8_char_def split: if_splits)
  then show ?thesis
  proof cases
    case 1
    with assms show ?thesis
      by (auto simp: utf8_char_def)
  next
    case 2
    then have bs: "bs = [192 + c div 64, 128 + c mod 64]"
      using assms by (simp add: utf8_char_def)
    have "c div 64 < 32"
      using 2 by simp
    then show ?thesis
      unfolding bs using decode2 [of "c div 64" "c mod 64" rest] m by (simp only: split2 append.simps)
  next
    case 3
    then have bs: "bs = [224 + c div 4096, 128 + c div 64 mod 64, 128 + c mod 64]"
      using assms by (simp add: utf8_char_def split: if_splits)
    have "c div 4096 < 16"
      using 3 by simp
    then show ?thesis
      unfolding bs using decode3 [of "c div 4096" "c div 64 mod 64" "c mod 64" rest] m
      by (simp only: split3 append.simps)
  next
    case 4
    then have bs: "bs = [240 + c div 262144, 128 + c div 4096 mod 64, 128 + c div 64 mod 64, 128 + c mod 64]"
      using assms by (simp add: utf8_char_def split: if_splits)
    have "c div 262144 < 8"
      using 4 by simp
    then show ?thesis
      unfolding bs
      using decode4 [of "c div 262144" "c div 4096 mod 64" "c div 64 mod 64" "c mod 64" rest] m
      by (simp only: split4 append.simps)
  qed
qed

lemma decode_encode_utf8: "encode_utf8 s = Some bs \<Longrightarrow> decode_utf8 bs = Some s"
proof (induction s arbitrary: bs)
  case Nil
  then show ?case by simp
next
  case (Cons c s)
  from Cons.prems obtain b bs' where b: "utf8_char c = Some b" and bs': "encode_utf8 s = Some bs'"
    and bs: "bs = b @ bs'"
    by (auto split: option.splits)
  show ?case
    unfolding bs by (simp add: decode_utf8_char [OF b] Cons.IH [OF bs'])
qed

lemma utf8_char_bytes: "utf8_char c = Some bs \<Longrightarrow> b \<in> set bs \<Longrightarrow> b < 256"
proof -
  assume a: "utf8_char c = Some bs" and b: "b \<in> set bs"
  have m: "c mod 64 < 64" "c div 64 mod 64 < 64" "c div 4096 mod 64 < 64"
    by simp_all
  consider "c < 128" | "128 \<le> c" "c < 2048" | "2048 \<le> c" "c < 65536" | "65536 \<le> c" "c < 1114112"
    using a by (cases "c < 1114112") (simp_all add: utf8_char_def split: if_splits)
  then show ?thesis
  proof cases
    case 1
    with a b show ?thesis by (auto simp: utf8_char_def)
  next
    case 2
    then have "c div 64 < 32" by simp
    with 2 a b m show ?thesis by (auto simp: utf8_char_def)
  next
    case 3
    then have "c div 4096 < 16" by simp
    with 3 a b m show ?thesis by (auto simp: utf8_char_def split: if_splits)
  next
    case 4
    then have "c div 262144 < 8" by simp
    with 4 a b m show ?thesis by (auto simp: utf8_char_def split: if_splits)
  qed
qed

lemma encode_utf8_bytes: "encode_utf8 s = Some bs \<Longrightarrow> \<forall>b\<in>set bs. b < 256"
proof (induction s arbitrary: bs)
  case Nil
  then show ?case by simp
next
  case (Cons c s)
  from Cons.prems obtain b bs' where b: "utf8_char c = Some b" and bs': "encode_utf8 s = Some bs'"
    and bs: "bs = b @ bs'"
    by (auto split: option.splits)
  show ?case
    unfolding bs using utf8_char_bytes [OF b] Cons.IH [OF bs'] by auto
qed

lemma encode_utf8_scalar:
  "\<forall>c\<in>set s. c < 1114112 \<and> \<not> (55296 \<le> c \<and> c \<le> 57343) \<Longrightarrow> \<exists>bs. encode_utf8 s = Some bs"
  by (induction s) (auto simp: utf8_char_def)

lemma unhex_hex_digit: "d < 16 \<Longrightarrow> unhex (hex_digit d) = Some d"
  by (simp add: unhex_def hex_digit_def)

lemma hex_digit_ascii: "d < 16 \<Longrightarrow> hex_digit d < 128"
  by (simp add: hex_digit_def)

lemma quote_safe_ascii: "quote_safe b \<Longrightarrow> b < 128 \<and> b \<noteq> 37"
  by (auto simp: quote_safe_def is_alnum_def)

lemma unquote_quote_byte:
  assumes "b < 256"
  shows "unquote (quote_byte b @ rest) = map_option ((#) b) (unquote rest)"
proof (cases "quote_safe b")
  case True
  then have "b < 128" "b \<noteq> 37"
    by (simp_all add: quote_safe_ascii)
  with True show ?thesis
    by (simp add: quote_byte_def)
next
  case False
  have "b div 16 < 16" "b mod 16 < 16"
    using assms by simp_all
  then have "unhex (hex_digit (b div 16)) = Some (b div 16)"
    "unhex (hex_digit (b mod 16)) = Some (b mod 16)"
    by (simp_all only: unhex_hex_digit)
  with False show ?thesis
    by (simp add: quote_byte_def)
qed

lemma unquote_quote: "\<forall>b\<in>set bs. b < 256 \<Longrightarrow> unquote (quote bs) = Some bs"
  by (induction bs) (simp_all add: quote_def unquote_quote_byte)

lemma quote_byte_ascii:
  assumes "b < 256" and "c \<in> set (quote_byte b)"
  shows "c < 128"
proof (cases "quote_safe b")
  case True
  with assms(2) show ?thesis
    by (simp add: quote_byte_def quote_safe_ascii)
next
  case False
  have "b div 16 < 16" "b mod 16 < 16"
    using assms(1) by simp_all
  then have "hex_digit (b div 16) < 128" "hex_digit (b mod 16) < 128"
    by (simp_all only: hex_digit_ascii)
  with False assms(2) show ?thesis
    by (auto simp: quote_byte_def)
qed

lemma quote_ascii: "\<forall>b\<in>set bs. b < 256 \<Longrightarrow> \<forall>c\<in>set (quote bs). c < 128"
  by (auto simp: quote_def dest: quote_byte_ascii)

lemma content_disposition_ascii:
  "\<forall>c\<in>set fname. c < 128 \<Longrightarrow>
   content_disposition fname = Inr (lit ''attachment; filename='' @ fname)"
  by (simp add: content_disposition_def encode_ascii_def decode_ascii_def list_all_iff)

lemma content_disposition_utf8:
  assumes "\<not> (\<forall>c\<in>set fname. c < 128)"
      and "\<forall>c\<in>set fname. c < 1114112 \<and> \<not> (55296 \<le> c \<and> c \<le> 57343)"
  shows "\<exists>enc. content_disposition fname = Inr (lit ''attachment; filename*=UTF-8'' @ [39, 39] @ enc)
           \<and> (\<forall>c\<in>set enc. c < 128)
           \<and> Option.bind (unquote enc) decode_utf8 = Some fname"
proof -
  obtain bs where bs: "encode_utf8 fname = Some bs"
    using encode_utf8_scalar [OF assms(2)] by blast
  have bytes: "\<forall>b\<in>set bs. b < 256"
    using bs by (rule encode_utf8_bytes)
  have "encode_ascii fname = None"
    using assms(1) by (simp add: encode_ascii_def list_all_iff)
  then have "content_disposition fname = Inr (lit ''attachment; filename*=UTF-8'' @ [39, 39] @ quote bs)"
    by (simp add: content_disposition_def bs)
  moreover have "\<forall>c\<in>set (quote bs). c < 128"
    using bytes by (rule quote_ascii)
  moreover have "Option.bind (unquote (quote bs)) decode_utf8 = Some fname"
    by (simp add: unquote_quote [OF bytes] decode_encode_utf8 [OF bs])
  ultimately show ?thesis
    by blast
qed


lemma get_file_opened:
  assumes "ObjectId_is_valid fid"
      and "map_of (bucket s) (ObjectId fid) = Some g"
      and "g_filename g = Some fname"
      and "fname \<noteq> []"
      and "d_open env = Opened"
      and "content_disposition fname = Inr cd"
  shows "\<exists>resp s'. get_file env fid s = (Inr resp, s')
           \<and> map_of (sr_headers resp) (lit ''Content-Disposition'') = Some cd"
  using assms
  by (simp add: get_file_def Let_def split: prod.splits)

lemma upload_file_stores_filename:
  assumes "upload_file env file owner tg descr s = (Inr r, s')"
  shows "\<exists>g f. bucket s' = bucket s @ [(e_new_oid env, g)] \<and> g_filename g = Some f \<and> f \<noteq> []"
proof -
  have "allowed_content_type (u_content_type file)"
    using assms by (auto simp: upload_file_def split: if_splits)
  then show ?thesis
    using assms
    by (auto simp: upload_file_def Let_def insert_doc_def upload_from_stream_def lit_def
             split: option.splits)
qed

lemma ex_png_blob:
  "map_of (bucket ex_state) (ObjectId ex_fid_png)
     = Some (snd (ex_blob ex_doc_png [137, 80, 78, 71, 13, 10, 26, 10, 0, 0]))"
  by (simp add: ex_state_def ex_blob_def ex_fid_png_def ObjectId_def ex_doc_svg_def ex_doc_png_def lit_def)

lemma ex_png_header:
  "content_disposition (filename ex_doc_png)
     = Inr (lit ''attachment; filename*=UTF-8'' @ [39, 39] @ lit ''caf%C3%A9.png'')"
  by (simp add: content_disposition_def encode_ascii_def ex_doc_png_def lit_def utf8_char_def
        quote_def quote_byte_def quote_safe_def is_alnum_def hex_digit_def)


lemma content_disposition_total:
  assumes "\<forall>c\<in>set fname. c < 1114112 \<and> \<not> (55296 \<le> c \<and> c \<le> 57343)"
  shows "\<exists>cd. content_disposition fname = Inr cd"
proof (cases "\<forall>c\<in>set fname. c < 128")
  case True
  then show ?thesis
    using content_disposition_ascii by blast
next
  case False
  then show ?thesis
    using content_disposition_utf8 [OF False assms] by blast
qed

lemma get_file_succeeds:
  assumes "ObjectId_is_valid fid"
      and "map_of (bucket s) (ObjectId fid) = Some g"
      and "g_filename g = Some fname"
      and "fname \<noteq> []"
      and "\<forall>c\<in>set fname. c < 1114112 \<and> \<not> (55296 \<le> c \<and> c \<le> 57343)"
      and "d_open env = Opened"
  shows "\<exists>resp st. get_file env fid s = (Inr resp, st)
           \<and> sr_body resp = fst (stream_file (g_chunks g) (d_disconnected env))
           \<and> map_of (sr_headers resp) (lit ''Content-Length'') = Some (str_of_nat (g_length g))"
proof -
  obtain cd where cd: "content_disposition fname = Inr cd"
    using content_disposition_total [OF assms(5)] by blast
  have k: "lit ''Content-Length'' \<noteq> lit ''Content-Disposition''"
    "lit ''Content-Length'' \<noteq> lit ''Accept-Ranges''"
    by (simp_all add: lit_def)
  show ?thesis
    using assms(1-4,6) cd k
    by (simp add: get_file_def Let_def split: prod.splits)
qed

lemma hex_digit_is_hex: "d < 16 \<Longrightarrow> is_hex (hex_digit d)"
  by (simp add: hex_digit_def is_hex_def)

lemma value_chars_quote_byte:
  assumes "b < 256" and "b \<noteq> 47"
  shows "value_chars (quote_byte b @ rest) = value_chars rest"
proof (cases "quote_safe b")
  case True
  with assms(2) have "attr_char b" "b \<noteq> 37"
    by (auto simp: quote_safe_def attr_char_def is_alnum_def)
  with True show ?thesis
    by (simp add: quote_byte_def)
next
  case False
  have "b div 16 < 16" "b mod 16 < 16"
    using assms(1) by simp_all
  then have "is_hex (hex_digit (b div 16))" "is_hex (hex_digit (b mod 16))"
    by (simp_all only: hex_digit_is_hex)
  with False show ?thesis
    by (simp add: quote_byte_def)
qed

lemma value_chars_quote:
  "\<forall>b\<in>set bs. b < 256 \<and> b \<noteq> 47 \<Longrightarrow> value_chars (quote bs)"
  by (induction bs) (simp_all add: quote_def value_chars_quote_byte)

lemma utf8_char_slash: "utf8_char c = Some bs \<Longrightarrow> 47 \<in> set bs \<Longrightarrow> c = 47"
  by (auto simp: utf8_char_def split: if_splits)

lemma encode_utf8_slash: "encode_utf8 s = Some bs \<Longrightarrow> 47 \<in> set bs \<Longrightarrow> 47 \<in> set s"
proof (induction s arbitrary: bs)
  case Nil
  then show ?case by simp
next
  case (Cons c s)
  from Cons.prems(1) obtain b bs' where b: "utf8_char c = Some b" and bs': "encode_utf8 s = Some bs'"
    and bs: "bs = b @ bs'"
    by (auto split: option.splits)
  show ?case
    using Cons.prems(2) Cons.IH [OF bs'] utf8_char_slash [OF b] unfolding bs by auto
qed

lemma content_disposition_rfc5987:
  assumes "\<not> (\<forall>c\<in>set fname. c < 128)"
      and "\<forall>c\<in>set fname. c < 1114112 \<and> \<not> (55296 \<le> c \<and> c \<le> 57343)"
      and "47 \<notin> set fname"
  shows "\<exists>enc. content_disposition fname = Inr (lit ''attachment; filename*=UTF-8'' @ [39, 39] @ enc)
           \<and> value_chars enc"
proof -
  obtain bs where bs: "encode_utf8 fname = Some bs"
    using encode_utf8_scalar [OF assms(2)] by blast
  have "\<forall>b\<in>set bs. b < 256"
    using bs by (rule encode_utf8_bytes)
  moreover have "47 \<notin> set bs"
    using encode_utf8_slash [OF bs] assms(3) by blast
  ultimately have "value_chars (quote bs)"
    by (intro value_chars_quote) auto
  moreover have "encode_ascii fname = None"
    using assms(1) by (simp add: encode_ascii_def list_all_iff)
  then have "content_disposition fname = Inr (lit ''attachment; filename*=UTF-8'' @ [39, 39] @ quote bs)"
    by (simp add: content_disposition_def bs)
  ultimately show ?thesis
    by blast
qed

text \<open>The upload of the file named U+00E9, \<open>/\<close>, \<open>x\<close> on the example state.\<close>

lemma chunks_of_one:
  assumes "bs \<noteq> []" and "length bs \<le> n"
  shows "chunks_of n bs = [bs]"
proof -
  have "0 < length bs"
    using assms(1) by simp
  then have n: "n \<noteq> 0"
    using assms(2) by linarith
  have "chunks_of n [] = []"
    by (simp add: chunks_of.simps)
  with assms n show ?thesis
    by (simp add: chunks_of.simps [of n bs])
qed

lemma ex_slash_upload:
  "map_of (bucket (snd (upload_file ex_upload_env ex_slash_file None None None ex_state)))
          (ObjectId (e_new_oid ex_upload_env))
     = Some \<lparr> g_filename = Some [233, 47, 120],
              g_metadata = Some [(lit ''content_type'', BStr (lit ''image/png'')),
                                 (lit ''original_name'', BStr [233, 47, 120]),
                                 (lit ''owner_id'', BNull),
                                 (lit ''file_size'', BInt 2)],
              g_length = 2, g_chunks = [[1, 2]] \<rparr>"
  by (simp add: upload_file_def allowed_content_type_def startswith_def ex_slash_file_def Let_def
        insert_doc_def upload_from_stream_def ex_upload_env_def ex_state_def ex_blob_def
        ex_doc_svg_def ex_doc_png_def ex_doc_mp4_def ObjectId_def chunks_of_one
        chunk_size_bytes_def lit_def)

lemma ex_slash_header:
  "content_disposition [233, 47, 120]
     = Inr (lit ''attachment; filename*=UTF-8'' @ [39, 39] @ lit ''%C3%A9/x'')"
  by (simp add: content_disposition_def encode_ascii_def lit_def utf8_char_def
        quote_def quote_byte_def quote_safe_def is_alnum_def hex_digit_def)

lemma ex_slash_valid: "ObjectId_is_valid (e_new_oid ex_upload_env)"
  by (simp add: ObjectId_is_valid_def ex_upload_env_def lit_def is_hex_def)


section \<open>Facts about the collection\<close>

lemma find_one_file_id_Some:
  "find_one_file_id f rs = Some d \<Longrightarrow> d \<in> set rs \<and> file_id d = f"
  by (induction rs) (auto split: if_splits)

lemma find_one_file_id_None_iff:
  "find_one_file_id f rs = None \<longleftrightarrow> f \<notin> file_id ` set rs"
  by (induction rs) auto

lemma same_doc_id:
  "distinct (map doc_id rs) \<Longrightarrow> x \<in> set rs \<Longrightarrow> y \<in> set rs \<Longrightarrow> doc_id x = doc_id y \<Longrightarrow> x = y"
  by (meson distinct_map inj_onD)

lemma same_file_id:
  "distinct (map file_id rs) \<Longrightarrow> x \<in> set rs \<Longrightarrow> y \<in> set rs \<Longrightarrow> file_id x = file_id y \<Longrightarrow> x = y"
  by (meson distinct_map inj_onD)

lemma update_one_map:
  "distinct (map doc_id rs) \<Longrightarrow> update_one i g rs = map (\<lambda>x. if doc_id x = i then g x else x) rs"
proof (induction rs)
  case Nil
  then show ?case by simp
next
  case (Cons r rs)
  show ?case
  proof (cases "doc_id r = i")
    case True
    then have "\<forall>x\<in>set rs. doc_id x \<noteq> i"
      using Cons.prems by (auto simp: image_iff)
    then have "map (\<lambda>x. if doc_id x = i then g x else x) rs = rs"
      by (simp add: map_idI)
    with True show ?thesis by simp
  next
    case False
    with Cons show ?thesis by simp
  qed
qed

lemma delete_one_filter:
  "distinct (map doc_id rs) \<Longrightarrow> delete_one i rs = filter (\<lambda>x. doc_id x \<noteq> i) rs"
proof (induction rs)
  case Nil
  then show ?case by simp
next
  case (Cons r rs)
  show ?case
  proof (cases "doc_id r = i")
    case True
    then have "\<forall>x\<in>set rs. doc_id x \<noteq> i"
      using Cons.prems by (auto simp: image_iff)
    then have "filter (\<lambda>x. doc_id x \<noteq> i) rs = rs"
      by simp
    with True show ?thesis by simp
  next
    case False
    with Cons show ?thesis by simp
  qed
qed

lemma find_one_file_id_map:
  "distinct (map doc_id rs) \<Longrightarrow> find_one_file_id f rs = Some d \<Longrightarrow> file_id d' = f \<Longrightarrow>
   find_one_file_id f (map (\<lambda>x. if doc_id x = doc_id d then d' else x) rs) = Some d'"
proof (induction rs)
  case Nil
  then show ?case by simp
next
  case (Cons r rs)
  show ?case
  proof (cases "file_id r = f")
    case True
    with Cons.prems show ?thesis by simp
  next
    case False
    then have d: "find_one_file_id f rs = Some d"
      using Cons.prems by simp
    then have "d \<in> set rs"
      by (simp add: find_one_file_id_Some)
    then have "doc_id r \<noteq> doc_id d"
      using Cons.prems(1) by (auto simp: image_iff)
    with False d Cons show ?thesis by simp
  qed
qed

lemma set_fields_update_dict:
  "set_fields (update_dict u) d =
     d\<lparr> status := (case upd_status u of None \<Rightarrow> status d | Some v \<Rightarrow> v),
        tags := (case upd_tags u of None \<Rightarrow> tags d | Some v \<Rightarrow> v),
        description := (case upd_description u of None \<Rightarrow> description d | Some v \<Rightarrow> Some v) \<rparr>"
  by (cases "upd_status u"; cases "upd_tags u"; cases "upd_description u")
     (simp_all add: set_fields_def update_dict_def)

lemma update_dict_empty:
  "update_dict u = [] \<longleftrightarrow> upd_status u = None \<and> upd_tags u = None \<and> upd_description u = None"
  by (auto simp: update_dict_def split: option.splits)

lemma map_replace_self:
  "distinct (map doc_id rs) \<Longrightarrow> d \<in> set rs \<Longrightarrow>
   map (\<lambda>x. if doc_id x = doc_id d then d else x) rs = rs"
  by (rule map_idI) (auto dest: same_doc_id)

lemma get_file_same_bucket:
  "bucket s' = bucket s \<Longrightarrow> fst (get_file env fid s') = fst (get_file env fid s)"
  by (simp add: get_file_def Let_def split: option.splits stream_outcome.splits sum.splits prod.splits)

lemma set_fields_status [simp]:
  "set_fields [Set_status v] d = d\<lparr>status := v\<rparr>"
  by (simp add: set_fields_def)

lemma map_of_filter_key:
  "map_of (filter (\<lambda>kv. fst kv \<noteq> k) b) k = None"
  by (induction b) auto

lemma find_one_file_id_removed:
  assumes "distinct (map file_id rs)" and "d \<in> set rs"
  shows "find_one_file_id (file_id d) (filter (\<lambda>x. doc_id x \<noteq> doc_id d) rs) = None"
proof -
  have "file_id d \<notin> file_id ` set (filter (\<lambda>x. doc_id x \<noteq> doc_id d) rs)"
    using assms by (auto dest: same_file_id)
  then show ?thesis
    using find_one_file_id_None_iff by blast
qed

lemma list_all2_update_one:
  assumes "\<And>x. R x x" and "\<And>x. R x (g x)"
  shows "list_all2 R rs (update_one i g rs)"
  by (induction rs) (simp_all add: assms list.rel_refl)

lemma doc_id_assign [simp]: "doc_id (assign a d) = doc_id d"
  by (cases a) simp_all

lemma doc_id_set_fields [simp]: "doc_id (set_fields u d) = doc_id d"
  unfolding set_fields_def by (induction u arbitrary: d) simp_all

lemma collection_put_file:
  "list_all2 (\<lambda>x y. doc_id y = doc_id x \<and> (description y = None \<longrightarrow> description x = None))
     (collection s) (collection (snd (put_file fid b s)))"
proof -
  let ?R = "\<lambda>x y. doc_id y = doc_id x \<and> (description y = None \<longrightarrow> description x = None)"
  have refl: "list_all2 ?R rs rs" for rs
    by (simp add: list.rel_refl)
  have descr: "description (set_fields (update_dict u) x) = None \<longrightarrow> description x = None" for u x
    by (simp add: set_fields_update_dict split: option.splits)
  have upd: "list_all2 ?R rs (update_one i (set_fields (update_dict u)) rs)" for rs i u
    by (rule list_all2_update_one) (simp_all add: descr)
  show ?thesis
    by (auto simp: put_file_def update_file_def Let_def doc_update_def refresh_def refl upd
             split: sum.splits option.splits)
qed

text \<open>
  Unique primary keys and unique file ids are kept by every handler, given that the stores
  hand out fresh ids on upload.
\<close>

lemma doc_ids_update_one: "map doc_id (update_one i (set_fields u) rs) = map doc_id rs"
  by (induction rs) simp_all

lemma file_id_assign [simp]: "file_id (assign a d) = file_id d"
  by (cases a) simp_all

lemma file_id_set_fields [simp]: "file_id (set_fields u d) = file_id d"
  unfolding set_fields_def by (induction u arbitrary: d) simp_all

lemma file_ids_update_one: "map file_id (update_one i (set_fields u) rs) = map file_id rs"
  by (induction rs) simp_all

lemma set_delete_one: "set (delete_one i rs) \<subseteq> set rs"
  by (induction rs) auto

lemma distinct_delete_one: "distinct (map f rs) \<Longrightarrow> distinct (map f (delete_one i rs))"
proof (induction rs)
  case Nil
  then show ?case by simp
next
  case (Cons r rs)
  then show ?case
    using set_delete_one [of i rs] by auto
qed

lemma update_file_keeps_unique_ids:
  assumes "distinct (map doc_id (collection s))" and "distinct (map file_id (collection s))"
  shows "distinct (map doc_id (collection (snd (update_file fid u s))))
         \<and> distinct (map file_id (collection (snd (update_file fid u s))))"
  using assms
  by (auto simp: update_file_def Let_def doc_update_def refresh_def doc_ids_update_one
                 file_ids_update_one
           split: option.splits)

lemma delete_file_keeps_unique_ids:
  assumes "distinct (map doc_id (collection s))" and "distinct (map file_id (collection s))"
  shows "distinct (map doc_id (collection (snd (delete_file fault fid permanent s))))
         \<and> distinct (map file_id (collection (snd (delete_file fault fid permanent s))))"
  using assms
  by (auto simp: delete_file_def Let_def doc_update_def doc_delete_def bucket_delete_def
                 doc_ids_update_one file_ids_update_one distinct_delete_one
           split: option.splits prod.splits)

lemma upload_file_keeps_unique_ids:
  assumes "distinct (map doc_id (collection s))" and "distinct (map file_id (collection s))"
      and "e_new_doc_id env \<notin> doc_id ` set (collection s)"
      and "e_new_oid env \<notin> file_id ` set (collection s)"
  shows "distinct (map doc_id (collection (snd (upload_file env file owner tg descr s))))
         \<and> distinct (map file_id (collection (snd (upload_file env file owner tg descr s))))"
  using assms
  by (auto simp: upload_file_def Let_def insert_doc_def upload_from_stream_def)

text \<open>The example state.\<close>

lemma ex_distinct_doc_id: "distinct (map doc_id (collection ex_state))"
  by (simp add: ex_state_def ex_doc_svg_def ex_doc_png_def ex_doc_mp4_def lit_def)

lemma ex_distinct_file_id: "distinct (map file_id (collection ex_state))"
  by (simp add: ex_state_def ex_doc_svg_def ex_doc_png_def ex_doc_mp4_def lit_def)

lemma ex_fid_valid: "ObjectId_is_valid ex_fid"
  by (simp add: ObjectId_is_valid_def ex_fid_def lit_def is_hex_def)

lemma ex_find_one: "find_one_file_id ex_fid (collection ex_state) = Some ex_doc_svg"
  by (simp add: ex_state_def ex_fid_def ex_doc_svg_def)

lemma ex_download:
  "fst (get_file ex_download_env ex_fid ex_state)
     = Inr \<lparr> sr_body = [[60, 47, 62]], sr_media_type = BStr (lit ''image/svg+xml''),
             sr_headers = [(lit ''Content-Disposition'', lit ''attachment; filename=logo.svg''),
                           (lit ''Accept-Ranges'', lit ''bytes''),
                           (lit ''Content-Length'', lit ''3''),
                           (lit ''Cache-Control'', lit ''public, max-age=3600'')] \<rparr>"
  by code_simp


section \<open>C4: what an update changes\<close>

text \<open>
  C4. For an existing record (found by a valid file id, primary keys being unique), an
  update leaves the record with the status, tags and description of the request where the
  request gives them and with its previous ones where it does not; its file id, filename,
  file size and upload date (and its other fields) are as before; every other record and
  the bucket are as before. The handler answers the record when the request gives no
  field; when it gives one, the fields are stored and the handler then ends in the error
  that \<open>refresh\<close> raises.
\<close>

theorem update_file_changes_only_given_fields:
  assumes "distinct (map doc_id (collection s))"
      and "ObjectId_is_valid fid"
      and "find_one_file_id fid (collection s) = Some d"
  shows "\<exists>d' s'. update_file fid u s =
             ((if upd_status u = None \<and> upd_tags u = None \<and> upd_description u = None
               then Inr \<lparr> resp_id = doc_id d, resp_filename = filename d,
                          resp_content_type = Some (content_type d),
                          resp_upload_date = upload_date d, resp_file_size = file_size d,
                          resp_status = status d, resp_owner_id = owner_id d,
                          resp_tags = tags d, resp_description = description d \<rparr>
               else Inl (Unhandled (lit ''AttributeError''))), s')
           \<and> find_one_file_id fid (collection s') = Some d'
           \<and> status d' = (case upd_status u of None \<Rightarrow> status d | Some v \<Rightarrow> v)
           \<and> tags d' = (case upd_tags u of None \<Rightarrow> tags d | Some v \<Rightarrow> v)
           \<and> description d' = (case upd_description u of None \<Rightarrow> description d | Some v \<Rightarrow> Some v)
           \<and> file_id d' = file_id d \<and> filename d' = filename d
           \<and> file_size d' = file_size d \<and> upload_date d' = upload_date d
           \<and> doc_id d' = doc_id d \<and> content_type d' = content_type d
           \<and> owner_id d' = owner_id d \<and> metadata d' = metadata d
           \<and> collection s' = map (\<lambda>x. if doc_id x = doc_id d then d' else x) (collection s)
           \<and> bucket s' = bucket s"
proof -
  let ?d' = "set_fields (update_dict u) d"
  let ?res = "if upd_status u = None \<and> upd_tags u = None \<and> upd_description u = None
               then Inr \<lparr> resp_id = doc_id d, resp_filename = filename d,
                          resp_content_type = Some (content_type d),
                          resp_upload_date = upload_date d, resp_file_size = file_size d,
                          resp_status = status d, resp_owner_id = owner_id d,
                          resp_tags = tags d, resp_description = description d \<rparr>
               else Inl (Unhandled (lit ''AttributeError''))"
  have mem: "d \<in> set (collection s)" and fid: "file_id d = fid"
    using assms(3) by (simp_all add: find_one_file_id_Some)
  have upd: "update_one (doc_id d) (set_fields (update_dict u)) (collection s)
             = map (\<lambda>x. if doc_id x = doc_id d then ?d' else x) (collection s)"
    using assms(1) mem
    by (auto simp: update_one_map dest: same_doc_id)
  have f: "file_id ?d' = fid"
    by (simp add: fid)
  show ?thesis
  proof (cases "update_dict u = []")
    case True
    then have none: "upd_status u = None \<and> upd_tags u = None \<and> upd_description u = None"
      by (simp add: update_dict_empty)
    have "update_file fid u s = (?res, s)"
      using assms True none by (simp add: update_file_def to_response_def)
    moreover have "collection s = map (\<lambda>x. if doc_id x = doc_id d then d else x) (collection s)"
      using assms(1) mem by (simp add: map_replace_self)
    moreover have "status d = (case upd_status u of None \<Rightarrow> status d | Some v \<Rightarrow> v)"
      "tags d = (case upd_tags u of None \<Rightarrow> tags d | Some v \<Rightarrow> v)"
      "description d = (case upd_description u of None \<Rightarrow> description d | Some v \<Rightarrow> Some v)"
      using none by simp_all
    ultimately show ?thesis
      using assms(3) by blast
  next
    case False
    let ?s' = "doc_update (doc_id d) (update_dict u) s"
    have some: "\<not> (upd_status u = None \<and> upd_tags u = None \<and> upd_description u = None)"
      using False by (simp add: update_dict_empty)
    have coll: "collection ?s' = map (\<lambda>x. if doc_id x = doc_id d then ?d' else x) (collection s)"
      by (simp add: doc_update_def upd)
    have "update_file fid u s = (?res, ?s')"
      using assms False some by (simp add: update_file_def Let_def refresh_def)
    moreover have "find_one_file_id fid (collection ?s') = Some ?d'"
      unfolding coll using assms(1,3) f by (rule find_one_file_id_map)
    moreover have "bucket ?s' = bucket s"
      by (simp add: doc_update_def)
    moreover have "status ?d' = (case upd_status u of None \<Rightarrow> status d | Some v \<Rightarrow> v)"
      "tags ?d' = (case upd_tags u of None \<Rightarrow> tags d | Some v \<Rightarrow> v)"
      "description ?d' = (case upd_description u of None \<Rightarrow> description d | Some v \<Rightarrow> Some v)"
      "file_id ?d' = file_id d" "filename ?d' = filename d" "file_size ?d' = file_size d"
      "upload_date ?d' = upload_date d" "doc_id ?d' = doc_id d" "content_type ?d' = content_type d"
      "owner_id ?d' = owner_id d" "metadata ?d' = metadata d"
      by (simp_all add: set_fields_update_dict)
    ultimately show ?thesis
      using coll by blast
  qed
qed

text \<open>
  C4 at a concrete update giving only tags: the tags are stored, status and description
  stay.
\<close>

theorem update_file_only_tags_witness:
  "\<exists>d' s'. update_file ex_fid ex_update ex_state = (Inl (Unhandled (lit ''AttributeError'')), s')
     \<and> find_one_file_id ex_fid (collection s') = Some d'
     \<and> tags d' = [lit ''n'', lit ''m'']
     \<and> status d' = ACTIVE \<and> description d' = Some (lit ''logo'')
     \<and> filename d' = lit ''logo.svg'' \<and> file_size d' = Some 3 \<and> upload_date d' = 1700000000
     \<and> file_id d' = ex_fid"
  using update_file_changes_only_given_fields
          [OF ex_distinct_doc_id ex_fid_valid ex_find_one, of ex_update]
  by (auto simp: ex_update_def ex_doc_svg_def ex_fid_def)


section \<open>C6: soft delete\<close>

text \<open>
  C6. For an existing record, a delete with \<open>permanent = false\<close> succeeds; it sets the
  record's status to deleted and changes no other field, no other record and nothing in the
  bucket; \<open>get_file_info\<close> then answers the fields of the record with status deleted; a
  download of the same id answers what it answered before the delete, and it succeeds
  whenever the file is in the bucket under a non-empty name of Unicode scalar values and
  its stream opens.
\<close>

theorem soft_delete_retains_record_and_blob:
  assumes "distinct (map doc_id (collection s))"
      and "ObjectId_is_valid fid"
      and "find_one_file_id fid (collection s) = Some d"
  shows "\<exists>s'. delete_file fault fid False s
                 = (Inr [(lit ''message'', lit ''File marked as deleted''), (lit ''file_id'', fid),
                         (lit ''status'', lit ''deleted'')], s')
           \<and> collection s' = map (\<lambda>x. if doc_id x = doc_id d then d\<lparr>status := DELETED\<rparr> else x) (collection s)
           \<and> bucket s' = bucket s
           \<and> get_file_info fid s' =
               Inr \<lparr> resp_id = doc_id d, resp_filename = filename d,
                     resp_content_type = Some (content_type d),
                     resp_upload_date = upload_date d, resp_file_size = file_size d,
                     resp_status = DELETED, resp_owner_id = owner_id d,
                     resp_tags = tags d, resp_description = description d \<rparr>
           \<and> (\<forall>env. fst (get_file env fid s') = fst (get_file env fid s))
           \<and> (\<forall>env g fname.
                 map_of (bucket s) (ObjectId fid) = Some g \<and> g_filename g = Some fname
                 \<and> fname \<noteq> [] \<and> (\<forall>c\<in>set fname. c < 1114112 \<and> \<not> (55296 \<le> c \<and> c \<le> 57343))
                 \<and> d_open env = Opened \<longrightarrow>
                 (\<exists>resp st. get_file env fid s' = (Inr resp, st)
                    \<and> sr_body resp = fst (stream_file (g_chunks g) (d_disconnected env))
                    \<and> map_of (sr_headers resp) (lit ''Content-Length'')
                        = Some (str_of_nat (g_length g))))"
proof -
  let ?s' = "doc_update (doc_id d) [Set_status DELETED] s"
  have mem: "d \<in> set (collection s)" and fid: "file_id d = fid"
    using assms(3) by (simp_all add: find_one_file_id_Some)
  have coll: "collection ?s' = map (\<lambda>x. if doc_id x = doc_id d then d\<lparr>status := DELETED\<rparr> else x) (collection s)"
    using assms(1) mem by (auto simp: doc_update_def update_one_map dest: same_doc_id)
  have b: "bucket ?s' = bucket s"
    by (simp add: doc_update_def)
  have "find_one_file_id fid (collection ?s') = Some (d\<lparr>status := DELETED\<rparr>)"
    unfolding coll using assms(1,3) by (rule find_one_file_id_map) (simp add: fid)
  then have info: "get_file_info fid ?s' =
               Inr \<lparr> resp_id = doc_id d, resp_filename = filename d,
                     resp_content_type = Some (content_type d),
                     resp_upload_date = upload_date d, resp_file_size = file_size d,
                     resp_status = DELETED, resp_owner_id = owner_id d,
                     resp_tags = tags d, resp_description = description d \<rparr>"
    using assms(2) by (simp add: get_file_info_def to_response_def)
  have dl: "\<exists>resp st. get_file env fid ?s' = (Inr resp, st)
                    \<and> sr_body resp = fst (stream_file (g_chunks g) (d_disconnected env))
                    \<and> map_of (sr_headers resp) (lit ''Content-Length'')
                        = Some (str_of_nat (g_length g))"
    if "map_of (bucket s) (ObjectId fid) = Some g \<and> g_filename g = Some fname
          \<and> fname \<noteq> [] \<and> (\<forall>c\<in>set fname. c < 1114112 \<and> \<not> (55296 \<le> c \<and> c \<le> 57343))
          \<and> d_open env = Opened" for env g fname
  proof -
    from that have "map_of (bucket ?s') (ObjectId fid) = Some g"
      by (simp add: b)
    then show ?thesis
      using that get_file_succeeds [OF assms(2), of ?s' g fname env] by blast
  qed
  have "delete_file fault fid False s
          = (Inr [(lit ''message'', lit ''File marked as deleted''), (lit ''file_id'', fid),
                  (lit ''status'', lit ''deleted'')], ?s')"
    using assms by (simp add: delete_file_def Let_def)
  then show ?thesis
    using coll b info get_file_same_bucket [OF b] dl by blast
qed

text \<open>C6 on the example state: the record is still reported and the download succeeds.\<close>

theorem soft_delete_witness:
  "\<exists>s'. delete_file None ex_fid False ex_state
           = (Inr [(lit ''message'', lit ''File marked as deleted''), (lit ''file_id'', ex_fid),
                   (lit ''status'', lit ''deleted'')], s')
      \<and> get_file_info ex_fid s' =
           Inr \<lparr> resp_id = lit ''64b7f0a1c2d3e4f5a6b7c801'', resp_filename = lit ''logo.svg'',
                 resp_content_type = Some (lit ''image/svg+xml''),
                 resp_upload_date = 1700000000, resp_file_size = Some 3,
                 resp_status = DELETED, resp_owner_id = Some (lit ''alice''),
                 resp_tags = [lit ''a''], resp_description = Some (lit ''logo'') \<rparr>
      \<and> fst (get_file ex_download_env ex_fid s')
          = Inr \<lparr> sr_body = [[60, 47, 62]], sr_media_type = BStr (lit ''image/svg+xml''),
                  sr_headers = [(lit ''Content-Disposition'', lit ''attachment; filename=logo.svg''),
                                (lit ''Accept-Ranges'', lit ''bytes''),
                                (lit ''Content-Length'', lit ''3''),
                                (lit ''Cache-Control'', lit ''public, max-age=3600'')] \<rparr>"
proof -
  from soft_delete_retains_record_and_blob
          [OF ex_distinct_doc_id ex_fid_valid ex_find_one, of None]
  obtain s' where d: "delete_file None ex_fid False ex_state
           = (Inr [(lit ''message'', lit ''File marked as deleted''), (lit ''file_id'', ex_fid),
                   (lit ''status'', lit ''deleted'')], s')"
    and i: "get_file_info ex_fid s' =
               Inr \<lparr> resp_id = doc_id ex_doc_svg, resp_filename = filename ex_doc_svg,
                     resp_content_type = Some (content_type ex_doc_svg),
                     resp_upload_date = upload_date ex_doc_svg, resp_file_size = file_size ex_doc_svg,
                     resp_status = DELETED, resp_owner_id = owner_id ex_doc_svg,
                     resp_tags = tags ex_doc_svg, resp_description = description ex_doc_svg \<rparr>"
    and g: "\<forall>env. fst (get_file env ex_fid s') = fst (get_file env ex_fid ex_state)"
    by blast
  from i have "get_file_info ex_fid s' =
           Inr \<lparr> resp_id = lit ''64b7f0a1c2d3e4f5a6b7c801'', resp_filename = lit ''logo.svg'',
                 resp_content_type = Some (lit ''image/svg+xml''),
                 resp_upload_date = 1700000000, resp_file_size = Some 3,
                 resp_status = DELETED, resp_owner_id = Some (lit ''alice''),
                 resp_tags = [lit ''a''], resp_description = Some (lit ''logo'') \<rparr>"
    by (simp add: ex_doc_svg_def)
  with d g ex_download show ?thesis
    by auto
qed


section \<open>C7: permanent delete\<close>

text \<open>
  C7. For an existing record (file ids being unique among the records), a delete with
  \<open>permanent = true\<close> calls the bucket's delete first and the document's delete second,
  and reports success whether or not the bucket's delete raised; afterwards the record is
  not in the collection and \<open>get_file_info\<close> answers 404. When the bucket's delete raised
  because of a store fault, the bucket is as before and the failure is printed.
\<close>

theorem permanent_delete_removes_record:
  assumes "distinct (map doc_id (collection s))"
      and "distinct (map file_id (collection s))"
      and "ObjectId_is_valid fid"
      and "find_one_file_id fid (collection s) = Some d"
  shows "\<exists>s'. delete_file fault fid True s
                 = (Inr [(lit ''message'', lit ''File permanently deleted''), (lit ''file_id'', fid)], s')
           \<and> journal s' = journal s @ [Bucket_delete (ObjectId fid), Doc_delete (doc_id d)]
           \<and> collection s' = filter (\<lambda>x. doc_id x \<noteq> doc_id d) (collection s)
           \<and> d \<notin> set (collection s')
           \<and> get_file_info fid s' = Inl (HTTPException 404 (lit ''File not found''))
           \<and> (case fault of
                 None \<Rightarrow> map_of (bucket s') (ObjectId fid) = None
               | Some e \<Rightarrow> bucket s' = bucket s
                           \<and> stdout s' = stdout s @ [lit ''Error deleting from GridFS: '' @ e])"
proof -
  have mem: "d \<in> set (collection s)" and fid: "file_id d = fid"
    using assms(4) by (simp_all add: find_one_file_id_Some)
  have del: "delete_one (doc_id d) (collection s) = filter (\<lambda>x. doc_id x \<noteq> doc_id d) (collection s)"
    using assms(1) by (rule delete_one_filter)
  have gone: "find_one_file_id fid (filter (\<lambda>x. doc_id x \<noteq> doc_id d) (collection s)) = None"
    using find_one_file_id_removed [OF assms(2) mem] by (simp add: fid)
  show ?thesis
  proof (cases fault)
    case (Some e)
    then show ?thesis
      using assms(3,4) del gone
      by (simp add: delete_file_def bucket_delete_def doc_delete_def Let_def get_file_info_def)
  next
    case None
    show ?thesis
    proof (cases "map_of (bucket s) (ObjectId fid)")
      case absent: None
      then show ?thesis
        using assms(3,4) del gone None
        by (simp add: delete_file_def bucket_delete_def doc_delete_def Let_def get_file_info_def)
    next
      case (Some g)
      then show ?thesis
        using assms(3,4) del gone None
        by (simp add: delete_file_def bucket_delete_def doc_delete_def Let_def get_file_info_def
              map_of_filter_key)
    qed
  qed
qed

text \<open>C7 on the example state, with a failing bucket delete.\<close>

theorem permanent_delete_witness:
  "\<exists>s'. delete_file (Some (lit ''boom'')) ex_fid True ex_state
           = (Inr [(lit ''message'', lit ''File permanently deleted''), (lit ''file_id'', ex_fid)], s')
      \<and> journal s' = [Bucket_delete ex_fid, Doc_delete (lit ''64b7f0a1c2d3e4f5a6b7c801'')]
      \<and> collection s' = [ex_doc_png, ex_doc_mp4]
      \<and> bucket s' = bucket ex_state
      \<and> get_file_info ex_fid s' = Inl (HTTPException 404 (lit ''File not found''))"
  using permanent_delete_removes_record
          [OF ex_distinct_doc_id ex_distinct_file_id ex_fid_valid ex_find_one, of "Some (lit ''boom'')"]
  by (auto simp: ex_state_def ex_doc_svg_def ex_doc_png_def ex_doc_mp4_def ex_fid_def ObjectId_def lit_def)


section \<open>C9: null fields of an update\<close>

lemma map_update_one_same:
  assumes "\<And>x. f (g x) = f x"
  shows "map f (update_one i g rs) = map f rs"
  by (induction rs) (simp_all add: assms)

lemma put_file_keeps_unset:
  "(b_status b = Null \<longrightarrow> map status (collection (snd (put_file fid b s))) = map status (collection s))
   \<and> (b_tags b = Null \<longrightarrow> map tags (collection (snd (put_file fid b s))) = map tags (collection s))
   \<and> (b_description b = Null \<longrightarrow>
        map description (collection (snd (put_file fid b s))) = map description (collection s))"
proof -
  have st: "map status (update_one i (set_fields (update_dict u)) rs) = map status rs"
    if "upd_status u = None" for u i rs
    by (rule map_update_one_same) (simp add: set_fields_update_dict that)
  have tg: "map tags (update_one i (set_fields (update_dict u)) rs) = map tags rs"
    if "upd_tags u = None" for u i rs
    by (rule map_update_one_same) (simp add: set_fields_update_dict that)
  have de: "map description (update_one i (set_fields (update_dict u)) rs) = map description rs"
    if "upd_description u = None" for u i rs
    by (rule map_update_one_same) (simp add: set_fields_update_dict that)
  show ?thesis
    by (auto simp: put_file_def parse_update_def update_file_def Let_def doc_update_def refresh_def
                   st tg de
             split: sum.splits option.splits)
qed

text \<open>
  C9. A body that gives \<open>null\<close> for status, tags or description is handled exactly as the
  body without that key: same answer, same state. A field given as \<open>null\<close> is left as it
  is in every record. And an update never takes a description away: each record after an
  update is the record with the same primary key before it, and its description is unset
  only if it was unset before. (Status and tags of a record are never unset: the record
  type has no such value.)
\<close>

theorem put_file_null_is_absent:
  "put_file fid (b\<lparr>b_status := Null\<rparr>) s = put_file fid (b\<lparr>b_status := Absent\<rparr>) s
   \<and> put_file fid (b\<lparr>b_tags := Null\<rparr>) s = put_file fid (b\<lparr>b_tags := Absent\<rparr>) s
   \<and> put_file fid (b\<lparr>b_description := Null\<rparr>) s = put_file fid (b\<lparr>b_description := Absent\<rparr>) s
   \<and> list_all2 (\<lambda>x y. doc_id y = doc_id x \<and> (description y = None \<longrightarrow> description x = None))
        (collection s) (collection (snd (put_file fid b s)))
   \<and> (b_status b = Null \<longrightarrow> map status (collection (snd (put_file fid b s))) = map status (collection s))
   \<and> (b_tags b = Null \<longrightarrow> map tags (collection (snd (put_file fid b s))) = map tags (collection s))
   \<and> (b_description b = Null \<longrightarrow>
        map description (collection (snd (put_file fid b s))) = map description (collection s))"
proof -
  have "parse_update (b\<lparr>b_status := Null\<rparr>) = parse_update (b\<lparr>b_status := Absent\<rparr>)"
    by (simp add: parse_update_def)
  moreover have "parse_update (b\<lparr>b_tags := Null\<rparr>) = parse_update (b\<lparr>b_tags := Absent\<rparr>)"
    by (simp add: parse_update_def split: option.splits)
  moreover have "parse_update (b\<lparr>b_description := Null\<rparr>) = parse_update (b\<lparr>b_description := Absent\<rparr>)"
    by (simp add: parse_update_def split: option.splits)
  ultimately have eq: "put_file fid (b\<lparr>b_status := Null\<rparr>) s = put_file fid (b\<lparr>b_status := Absent\<rparr>) s"
    "put_file fid (b\<lparr>b_tags := Null\<rparr>) s = put_file fid (b\<lparr>b_tags := Absent\<rparr>) s"
    "put_file fid (b\<lparr>b_description := Null\<rparr>) s = put_file fid (b\<lparr>b_description := Absent\<rparr>) s"
    by (simp_all add: put_file_def)
  show ?thesis
    using eq collection_put_file [of s fid b] put_file_keeps_unset [of b fid s] by blast
qed

text \<open>
  C9 on the example state: a \<open>null\<close> description leaves the description there, while the
  tags given with it are stored.
\<close>

theorem put_file_null_witness:
  "put_file ex_fid ex_body ex_state = put_file ex_fid (ex_body\<lparr>b_description := Absent\<rparr>) ex_state
   \<and> map description (collection (snd (put_file ex_fid ex_body ex_state))) = [Some (lit ''logo''), None, None]
   \<and> map tags (collection (snd (put_file ex_fid ex_body ex_state)))
       = [[lit ''n'', lit ''m''], [lit ''x'', lit ''y''], [lit ''b'', lit ''c'']]
   \<and> fst (put_file ex_fid ex_body ex_state) = Inl (Unhandled (lit ''AttributeError''))"
proof -
  have "ex_body = ex_body\<lparr>b_description := Null\<rparr>"
    by (simp add: ex_body_def)
  then have "put_file ex_fid ex_body ex_state = put_file ex_fid (ex_body\<lparr>b_description := Absent\<rparr>) ex_state"
    using put_file_null_is_absent [of ex_fid ex_body ex_state] by simp
  moreover have "collection (snd (put_file ex_fid ex_body ex_state))
                   = [ex_doc_svg\<lparr>tags := [lit ''n'', lit ''m'']\<rparr>, ex_doc_png, ex_doc_mp4]"
    by code_simp
  moreover have "fst (put_file ex_fid ex_body ex_state) = Inl (Unhandled (lit ''AttributeError''))"
    by code_simp
  ultimately show ?thesis
    by (simp add: ex_doc_svg_def ex_doc_png_def ex_doc_mp4_def)
qed


section \<open>More facts about the filter\<close>

lemma compile_filter_append:
  "compile_filter rx (a @ b) =
     (case compile_filter rx a of None \<Rightarrow> None
      | Some p \<Rightarrow> (case compile_filter rx b of None \<Rightarrow> None
                   | Some q \<Rightarrow> Some (\<lambda>r. p r \<and> q r)))"
  by (induction a) (auto split: option.splits)

lemma parse_tags_empty [simp]: "parse_tags [] = []"
  by (simp add: parse_tags_def strip_def)

lemma build_filter_tags:
  "build_filter owner st ct (Some v) =
     build_filter owner st ct None @ (if parse_tags v = [] then [] else [Tags_in (parse_tags v)])"
  by (cases "v = []") (simp_all add: build_filter_def Let_def)

lemma list_ex_inter: "list_ex (\<lambda>t. t \<in> set vs) ts \<longleftrightarrow> set ts \<inter> set vs \<noteq> {}"
  by (auto simp: list_ex_iff)

lemma find_all_tags:
  assumes "find_all rx (build_filter owner st ct None) rs = Inr others"
  shows "find_all rx (build_filter owner st ct (Some v)) rs =
           Inr (if parse_tags v = [] then others
                else filter (\<lambda>r. set (tags r) \<inter> set (parse_tags v) \<noteq> {}) others)"
proof -
  from assms obtain p where p: "compile_filter rx (build_filter owner st ct None) = Some p"
    and o: "others = filter p rs"
    by (auto simp: find_all_def split: option.splits)
  show ?thesis
    by (simp add: find_all_def build_filter_tags compile_filter_append p o list_ex_inter conj_commute)
qed

lemma ex_find_all_no_tags:
  "find_all ex_rx (build_filter None None None None) (collection ex_state)
     = Inr [ex_doc_svg, ex_doc_png, ex_doc_mp4]"
  by (simp add: find_all_def build_filter_def ex_state_def)

lemma ex_parse_tags: "parse_tags (lit ''x, b'') = [lit ''x'', lit ''b'']"
  by (simp add: parse_tags_def lit_def strip_def comma_def isspace_def)

text \<open>
  On a parameter without metacharacters the fragment is the case-insensitive prefix test.
\<close>

lemma tokens_plain: "\<forall>c\<in>set p. \<not> is_meta c \<Longrightarrow> tokens p = Some (map TLit p)"
  by (induction p) (simp_all add: is_meta_def)

lemma items_plain: "items (map TLit p) = Some (map (\<lambda>c. One (Lit c)) p)"
proof (induction p)
  case Nil
  then show ?case by simp
next
  case (Cons c p)
  then show ?case by (cases p) simp_all
qed

lemma match_here_plain:
  "match_here cf (map (\<lambda>c. One (Lit c)) p) s
     \<longleftrightarrow> length p \<le> length s \<and> map cf (take (length p) s) = map cf p"
proof (induction p arbitrary: s)
  case Nil
  then show ?case by simp
next
  case (Cons c p)
  then show ?case by (cases s) auto
qed

lemma regex_fragment_plain_prefix:
  assumes "\<forall>c\<in>set p. \<not> is_meta c"
  shows "regex_fragment cf (lit ''^'' @ p) (lit ''i'')
           = Some (\<lambda>s. length p \<le> length s \<and> map cf (take (length p) s) = map cf p)"
proof -
  have "match_here cf (map (\<lambda>c. One (Lit c)) p)
          = (\<lambda>s. length p \<le> length s \<and> map cf (take (length p) s) = map cf p)"
    by (rule ext) (rule match_here_plain)
  then show ?thesis
    by (simp add: regex_fragment_def lit_def tokens_plain [OF assms] items_plain)
qed

lemma ex_rx_image:
  "\<exists>m. ex_rx (lit ''^'' @ lit ''image/'') (lit ''i'') = Some m \<and> m (content_type ex_doc_png)"
proof -
  have "\<forall>c\<in>set (lit ''image/''). \<not> is_meta c"
    by (simp add: lit_def is_meta_def)
  then have "ex_rx (lit ''^'' @ lit ''image/'') (lit ''i'')
               = Some (\<lambda>s. length (lit ''image/'') \<le> length s
                            \<and> map ascii_lower (take (length (lit ''image/'')) s)
                                = map ascii_lower (lit ''image/''))"
    unfolding ex_rx_def by (rule regex_fragment_plain_prefix)
  then show ?thesis
    by (simp add: ex_doc_png_def lit_def)
qed


lemma paginate_nth:
  assumes "i < length xs" and "skip \<le> i" and "limit = 0 \<or> i < skip + limit"
  shows "i - skip < length (paginate skip limit xs) \<and> paginate skip limit xs ! (i - skip) = xs ! i"
  using assms by (auto simp: paginate_def)

lemma ex_listing:
  "list_files ex_rx (Some (lit ''alice'')) None (Some (lit ''image/'')) (Some (lit ''x'')) 50 0 ex_state
     = Inr [\<lparr> resp_id = lit ''64b7f0a1c2d3e4f5a6b7c802'',
               resp_filename = lit ''caf'' @ [233] @ lit ''.png'',
               resp_content_type = Some (lit ''image/png''),
               resp_upload_date = 1700000100, resp_file_size = Some 10,
               resp_status = DELETED, resp_owner_id = Some (lit ''alice''),
               resp_tags = [lit ''x'', lit ''y''], resp_description = None \<rparr>]"
proof -
  have t: "parse_tags (lit ''x'') = [lit ''x'']"
    by (simp add: parse_tags_def lit_def strip_def comma_def isspace_def)
  have "\<forall>c\<in>set (lit ''image/''). \<not> is_meta c"
    by (simp add: lit_def is_meta_def)
  then have rx: "ex_rx (lit ''^'' @ lit ''image/'') (lit ''i'')
               = Some (\<lambda>s. length (lit ''image/'') \<le> length s
                            \<and> map ascii_lower (take (length (lit ''image/'')) s)
                                = map ascii_lower (lit ''image/''))"
    unfolding ex_rx_def by (rule regex_fragment_plain_prefix)
  have nonempty: "lit ''alice'' \<noteq> []" "lit ''image/'' \<noteq> []" "lit ''x'' \<noteq> []"
    by (simp_all add: lit_def)
  have f: "build_filter (Some (lit ''alice'')) None (Some (lit ''image/'')) (Some (lit ''x''))
             = [Owner_eq (lit ''alice''), Content_type_regex (lit ''^'' @ lit ''image/'') (lit ''i''),
                Tags_in [lit ''x'']]"
    by (simp add: build_filter_def nonempty t)
  have cf: "compile_filter ex_rx
              [Owner_eq (lit ''alice''), Content_type_regex (lit ''^'' @ lit ''image/'') (lit ''i''),
               Tags_in [lit ''x'']]
             = Some (\<lambda>r. owner_id r = Some (lit ''alice'')
                         \<and> (length (lit ''image/'') \<le> length (content_type r)
                              \<and> map ascii_lower (take (length (lit ''image/'')) (content_type r))
                                  = map ascii_lower (lit ''image/''))
                           \<and> list_ex (\<lambda>t. t \<in> set [lit ''x'']) (tags r) \<and> True)"
    by (simp add: rx)
  show ?thesis
    unfolding list_files_def find_all_def f cf
    by (simp add: paginate_def to_response_def ex_state_def ex_doc_svg_def ex_doc_png_def
          ex_doc_mp4_def lit_def ascii_lower_def)
qed


section \<open>C5: the tags filter\<close>

text \<open>
  C5, as the code has it. The tags parameter is split at commas, each piece trimmed and the
  empty pieces dropped. Among the records that pass the other filters, and before skip
  and limit apply: when at least one tag remains, the listing has exactly the records whose
  tag list shares a tag with that set; when none remains (as for \<open>tags=,\<close>) the handler
  sets no tags condition and every such record is listed.
\<close>

theorem list_files_tags_filter:
  assumes "find_all rx (build_filter owner st ct None) (collection s) = Inr others"
  shows "set (parse_tags v) = {strip t | t. t \<in> set (split comma v) \<and> strip t \<noteq> []}
         \<and> list_files rx owner st ct (Some v) limit skip s =
             Inr (map to_response (paginate skip limit
                   (if parse_tags v = [] then others
                    else filter (\<lambda>r. set (tags r) \<inter> set (parse_tags v) \<noteq> {}) others)))"
proof -
  have "set (parse_tags v) = {strip t | t. t \<in> set (split comma v) \<and> strip t \<noteq> []}"
    by (auto simp: parse_tags_def)
  then show ?thesis
    by (simp add: list_files_def find_all_tags [OF assms])
qed

text \<open>C5 on the example state: \<open>tags=x, b\<close> lists the two records tagged x or b.\<close>

theorem list_files_tags_witness:
  "list_files ex_rx None None None (Some (lit ''x, b'')) 50 0 ex_state
     = Inr [to_response ex_doc_png, to_response ex_doc_mp4]"
proof -
  have "list_files ex_rx None None None (Some (lit ''x, b'')) 50 0 ex_state =
          Inr (map to_response (paginate 0 50
                (if parse_tags (lit ''x, b'') = [] then [ex_doc_svg, ex_doc_png, ex_doc_mp4]
                 else filter (\<lambda>r. set (tags r) \<inter> set (parse_tags (lit ''x, b'')) \<noteq> {})
                        [ex_doc_svg, ex_doc_png, ex_doc_mp4])))"
    using list_files_tags_filter [OF ex_find_all_no_tags, of "lit ''x, b''" 50 0] by blast
  then have "list_files ex_rx None None None (Some (lit ''x, b'')) 50 0 ex_state =
          Inr (map to_response
                (filter (\<lambda>r. set (tags r) \<inter> set [lit ''x'', lit ''b''] \<noteq> {})
                   [ex_doc_svg, ex_doc_png, ex_doc_mp4]))"
    by (simp add: ex_parse_tags paginate_def)
  then show ?thesis
    by (simp add: ex_doc_svg_def ex_doc_png_def ex_doc_mp4_def lit_def)
qed

text \<open>
  C5 as stated fails: for \<open>tags=,\<close> the set of filter tags is empty, no record's tags
  intersect it, and the listing has all three records.
\<close>

theorem list_files_empty_tag_set:
  "parse_tags (lit '','') = []
   \<and> list_files ex_rx None None None (Some (lit '','')) 50 0 ex_state
       = Inr [to_response ex_doc_svg, to_response ex_doc_png, to_response ex_doc_mp4]"
proof -
  have "parse_tags (lit '','') = []"
    by (simp add: parse_tags_def lit_def strip_def comma_def isspace_def)
  then show ?thesis
    by (simp add: list_files_def find_all_def build_filter_def ex_state_def lit_def paginate_def)
qed


section \<open>C10: soft-deleted records in a listing\<close>

text \<open>
  C10. A listing without a status filter has no condition on the status: a record with
  status deleted that satisfies the owner, content-type and tags conditions of the request
  is among the records found, at some position \<open>i\<close>. The listing is the page of the found
  records that skip and limit select, and every page that covers position \<open>i\<close> (skip at
  most \<open>i\<close>, and limit 0 or \<open>i\<close> below skip plus limit) succeeds and has at position
  \<open>i - skip\<close> the response built from that record, with status deleted.
\<close>

theorem list_files_keeps_soft_deleted:
  assumes "r \<in> set (collection s)"
      and "status r = DELETED"
      and "\<forall>v. owner = Some v \<and> v \<noteq> [] \<longrightarrow> owner_id r = Some v"
      and "\<forall>v. ct = Some v \<and> v \<noteq> [] \<longrightarrow>
                (\<exists>m. rx (lit ''^'' @ v) (lit ''i'') = Some m \<and> m (content_type r))"
      and "\<forall>v. tg = Some v \<and> parse_tags v \<noteq> [] \<longrightarrow> set (tags r) \<inter> set (parse_tags v) \<noteq> {}"
  shows "\<exists>found i. find_all rx (build_filter owner None ct tg) (collection s) = Inr found
           \<and> r \<in> set found \<and> i < length found \<and> found ! i = r
           \<and> (\<forall>skip limit.
                 list_files rx owner None ct tg limit skip s
                   = Inr (map to_response (paginate skip limit found))
                 \<and> (skip \<le> i \<and> (limit = 0 \<or> i < skip + limit) \<longrightarrow>
                      (\<exists>rs. list_files rx owner None ct tg limit skip s = Inr rs
                         \<and> i - skip < length rs
                         \<and> rs ! (i - skip) =
                             \<lparr> resp_id = doc_id r, resp_filename = filename r,
                               resp_content_type = Some (content_type r),
                               resp_upload_date = upload_date r, resp_file_size = file_size r,
                               resp_status = DELETED, resp_owner_id = owner_id r,
                               resp_tags = tags r, resp_description = description r \<rparr>)))"
proof -
  have "compile_filter rx (build_filter owner None ct tg) \<noteq> None"
    by (rule build_filter_accepted) (use assms(4) in auto)
  then obtain p where p: "compile_filter rx (build_filter owner None ct tg) = Some p"
    by blast
  have "list_all (\<lambda>c. case cond_pred rx c of None \<Rightarrow> False | Some f \<Rightarrow> f r)
          (build_filter owner None ct tg)"
    using assms(3,4,5)
    by (auto simp: build_filter_def Let_def list_ex_inter split: option.splits)
  then have "p r"
    using compile_filter_Some [OF p] by simp
  then have mem: "r \<in> set (filter p (collection s))"
    using assms(1) by simp
  then obtain i where i: "i < length (filter p (collection s))" "filter p (collection s) ! i = r"
    by (meson in_set_conv_nth)
  have found: "find_all rx (build_filter owner None ct tg) (collection s) = Inr (filter p (collection s))"
    by (simp add: find_all_def p)
  have page: "list_files rx owner None ct tg limit skip s
                = Inr (map to_response (paginate skip limit (filter p (collection s))))" for limit skip
    by (simp add: list_files_def found)
  have resp: "to_response r =
                \<lparr> resp_id = doc_id r, resp_filename = filename r,
                  resp_content_type = Some (content_type r),
                  resp_upload_date = upload_date r, resp_file_size = file_size r,
                  resp_status = DELETED, resp_owner_id = owner_id r,
                  resp_tags = tags r, resp_description = description r \<rparr>"
    using assms(2) by (simp add: to_response_def)
  have hit: "i - skip < length (map to_response (paginate skip limit (filter p (collection s))))
             \<and> map to_response (paginate skip limit (filter p (collection s))) ! (i - skip) =
                \<lparr> resp_id = doc_id r, resp_filename = filename r,
                  resp_content_type = Some (content_type r),
                  resp_upload_date = upload_date r, resp_file_size = file_size r,
                  resp_status = DELETED, resp_owner_id = owner_id r,
                  resp_tags = tags r, resp_description = description r \<rparr>"
    if "skip \<le> i \<and> (limit = 0 \<or> i < skip + limit)" for skip limit
    using paginate_nth [OF i(1), of skip limit] that i(2) resp by simp
  show ?thesis
    using found mem i page hit by blast
qed

text \<open>
  C10 on the example state: the listing for owner alice, content type \<open>image/\<close> and tag
  x is the soft-deleted record.
\<close>

theorem list_files_keeps_soft_deleted_witness:
  "list_files ex_rx (Some (lit ''alice'')) None (Some (lit ''image/'')) (Some (lit ''x'')) 50 0 ex_state
     = Inr [\<lparr> resp_id = lit ''64b7f0a1c2d3e4f5a6b7c802'',
               resp_filename = lit ''caf'' @ [233] @ lit ''.png'',
               resp_content_type = Some (lit ''image/png''),
               resp_upload_date = 1700000100, resp_file_size = Some 10,
               resp_status = DELETED, resp_owner_id = Some (lit ''alice''),
               resp_tags = [lit ''x'', lit ''y''], resp_description = None \<rparr>]
   \<and> (\<exists>found i. find_all ex_rx
                    (build_filter (Some (lit ''alice'')) None (Some (lit ''image/'')) (Some (lit ''x'')))
                    (collection ex_state) = Inr found
          \<and> ex_doc_png \<in> set found \<and> i < length found \<and> found ! i = ex_doc_png
          \<and> status ex_doc_png = DELETED)"
proof -
  have m: "ex_doc_png \<in> set (collection ex_state)"
    by (simp add: ex_state_def)
  have d: "status ex_doc_png = DELETED"
    by (simp add: ex_doc_png_def)
  have o: "\<forall>v. Some (lit ''alice'') = Some v \<and> v \<noteq> [] \<longrightarrow> owner_id ex_doc_png = Some v"
    by (simp add: ex_doc_png_def)
  have c: "\<forall>v. Some (lit ''image/'') = Some v \<and> v \<noteq> [] \<longrightarrow>
             (\<exists>m. ex_rx (lit ''^'' @ v) (lit ''i'') = Some m \<and> m (content_type ex_doc_png))"
    using ex_rx_image by auto
  have "parse_tags (lit ''x'') = [lit ''x'']"
    by (simp add: parse_tags_def lit_def strip_def comma_def isspace_def)
  then have t: "\<forall>v. Some (lit ''x'') = Some v \<and> parse_tags v \<noteq> [] \<longrightarrow>
                  set (tags ex_doc_png) \<inter> set (parse_tags v) \<noteq> {}"
    by (simp add: ex_doc_png_def)
  have "\<exists>found i. find_all ex_rx
                    (build_filter (Some (lit ''alice'')) None (Some (lit ''image/'')) (Some (lit ''x'')))
                    (collection ex_state) = Inr found
          \<and> ex_doc_png \<in> set found \<and> i < length found \<and> found ! i = ex_doc_png"
    using list_files_keeps_soft_deleted
            [of ex_doc_png ex_state "Some (lit ''alice'')" "Some (lit ''image/'')" ex_rx
                "Some (lit ''x'')"]
          m d o c t
    by blast
  with d ex_listing show ?thesis
    by blast
qed


section \<open>C3: the content-type filter\<close>

text \<open>
  C3 at two concrete requests. The handler hands \<open>^\<close> followed by the parameter to the
  store's regular-expression operator without escaping it. With the parameter
  \<open>image/svg+xml\<close> the record whose content type is exactly \<open>image/svg+xml\<close> is not
  listed (\<open>+\<close> repeats the \<open>g\<close>); with \<open>image/.\<close> the record of content type
  \<open>image/png\<close> is listed, though its content type does not start with \<open>image/.\<close>.
\<close>

theorem list_files_content_type_not_literal:
  "startswith (content_type ex_doc_svg) (lit ''image/svg+xml'')
   \<and> list_files ex_rx None None (Some (lit ''image/svg+xml'')) None 50 0 ex_state = Inr []
   \<and> \<not> startswith (content_type ex_doc_png) (lit ''image/.'')
   \<and> list_files ex_rx None None (Some (lit ''image/.'')) None 50 0 ex_state
       = Inr [to_response ex_doc_svg, to_response ex_doc_png]"
proof -
  have "startswith (content_type ex_doc_svg) (lit ''image/svg+xml'')"
    by code_simp
  moreover have "list_files ex_rx None None (Some (lit ''image/svg+xml'')) None 50 0 ex_state = Inr []"
    by code_simp
  moreover have "\<not> startswith (content_type ex_doc_png) (lit ''image/.'')"
    by code_simp
  moreover have "list_files ex_rx None None (Some (lit ''image/.'')) None 50 0 ex_state
                   = Inr [to_response ex_doc_svg, to_response ex_doc_png]"
    by code_simp
  ultimately show ?thesis
    by blast
qed


section \<open>C8: the Content-Disposition header of a download\<close>

text \<open>
  What holds of every download that finds its file and opens its stream, the stored
  filename being a non-empty string of Unicode scalar values: when all its characters are
  ASCII, the header is \<open>attachment; filename=\<close> followed by the filename as it is;
  otherwise the header is \<open>attachment; filename*=UTF-8''\<close> followed by an ASCII-only
  string whose percent-decoding is the UTF-8 encoding of the filename. By
  \<open>content_disposition_rfc5987\<close> that string is a value of RFC 5987 when the filename has
  no \<open>/\<close>.
\<close>

lemma get_file_content_disposition:
  assumes "ObjectId_is_valid fid"
      and "map_of (bucket s) (ObjectId fid) = Some g"
      and "g_filename g = Some fname"
      and "fname \<noteq> []"
      and "\<forall>c\<in>set fname. c < 1114112 \<and> \<not> (55296 \<le> c \<and> c \<le> 57343)"
      and "d_open env = Opened"
  shows "\<exists>resp s'. get_file env fid s = (Inr resp, s')
           \<and> (if \<forall>c\<in>set fname. c < 128
               then map_of (sr_headers resp) (lit ''Content-Disposition'')
                      = Some (lit ''attachment; filename='' @ fname)
               else \<exists>enc. map_of (sr_headers resp) (lit ''Content-Disposition'')
                            = Some (lit ''attachment; filename*=UTF-8'' @ [39, 39] @ enc)
                      \<and> (\<forall>c\<in>set enc. c < 128)
                      \<and> Option.bind (unquote enc) decode_utf8 = Some fname)"
proof (cases "\<forall>c\<in>set fname. c < 128")
  case True
  then show ?thesis
    using get_file_opened [OF assms(1-4) assms(6) content_disposition_ascii [OF True]]
    by auto
next
  case False
  from content_disposition_utf8 [OF False assms(5)]
  obtain enc where cd: "content_disposition fname = Inr (lit ''attachment; filename*=UTF-8'' @ [39, 39] @ enc)"
    and enc: "\<forall>c\<in>set enc. c < 128" "Option.bind (unquote enc) decode_utf8 = Some fname"
    by blast
  from get_file_opened [OF assms(1-4) assms(6) cd]
  obtain resp s' where "get_file env fid s = (Inr resp, s')"
    "map_of (sr_headers resp) (lit ''Content-Disposition'')
       = Some (lit ''attachment; filename*=UTF-8'' @ [39, 39] @ enc)"
    by blast
  with False enc show ?thesis
    by auto
qed

text \<open>
  C8 at a concrete upload and download. An image uploaded under the name U+00E9, \<open>/\<close>,
  \<open>x\<close> is answered with \<open>filename*=UTF-8''%C3%A9/x\<close>: the \<open>/\<close> is left as it is, and
  the value is not a sequence of \<open>pct-encoded\<close> and \<open>attr-char\<close>, which is what RFC 5987
  allows there.
\<close>

theorem get_file_header_not_rfc5987:
  "fst (get_file ex_download_env (e_new_oid ex_upload_env)
          (snd (upload_file ex_upload_env ex_slash_file None None None ex_state)))
     = Inr \<lparr> sr_body = [[1, 2]], sr_media_type = BStr (lit ''image/png''),
             sr_headers =
               [(lit ''Content-Disposition'',
                 lit ''attachment; filename*=UTF-8'' @ [39, 39] @ lit ''%C3%A9/x''),
                (lit ''Accept-Ranges'', lit ''bytes''),
                (lit ''Content-Length'', lit ''2''),
                (lit ''Cache-Control'', lit ''public, max-age=3600'')] \<rparr>
   \<and> \<not> value_chars (lit ''%C3%A9/x'')"
proof -
  have len: "str_of_nat 2 = lit ''2''"
    by (simp add: str_of_nat.simps lit_def)
  have key: "map_of [(lit ''content_type'', BStr (lit ''image/png'')),
                     (lit ''original_name'', BStr [233, 47, 120]),
                     (lit ''owner_id'', BNull),
                     (lit ''file_size'', BInt 2)] (lit ''content_type'') = Some (BStr (lit ''image/png''))"
    by simp
  have "fst (get_file ex_download_env (e_new_oid ex_upload_env)
          (snd (upload_file ex_upload_env ex_slash_file None None None ex_state)))
     = Inr \<lparr> sr_body = [[1, 2]], sr_media_type = BStr (lit ''image/png''),
             sr_headers =
               [(lit ''Content-Disposition'',
                 lit ''attachment; filename*=UTF-8'' @ [39, 39] @ lit ''%C3%A9/x''),
                (lit ''Accept-Ranges'', lit ''bytes''),
                (lit ''Content-Length'', lit ''2''),
                (lit ''Cache-Control'', lit ''public, max-age=3600'')] \<rparr>"
    by (simp add: get_file_def ex_slash_valid ex_slash_upload ex_slash_header Let_def
          ex_download_env_def len key del: map_of.simps)
  moreover have "\<not> value_chars (lit ''%C3%A9/x'')"
    by (simp add: lit_def is_hex_def attr_char_def is_alnum_def)
  ultimately show ?thesis
    by blast
qed

end
